theory Spec2Isabelle
  imports Complex_Main "HOL-Library.Word"
begin

section \<open>Numbers and strings of the runtime\<close>

text \<open>
  The program is TypeScript. Its numbers are modelled as follows: integer-valued numbers
  are \<open>int\<close>, with the conversion to 32 bits that the bitwise operators perform written
  out (\<open>toInt32\<close>); all other numbers are \<open>real\<close>, so arithmetic on them is exact and
  the rounding of IEEE doubles is not part of this model. A string is the sequence of its
  UTF-16 code units, which is what \<open>length\<close> and \<open>charCodeAt\<close> count.
\<close>

type_synonym code_unit = "16 word"
type_synonym js_string = "code_unit list"

definition toInt32 :: "int \<Rightarrow> int" where
  \<comment> \<open>the value of an integer after conversion to a signed 32-bit integer\<close>
  "toInt32 x = (x + 2147483648) mod 4294967296 - 2147483648"

definition shiftLeft :: "int \<Rightarrow> nat \<Rightarrow> int" where
  \<comment> \<open>\<open>x << n\<close>, for \<open>n < 32\<close>\<close>
  "shiftLeft x n = toInt32 (toInt32 x * 2 ^ n)"

definition shiftRight :: "int \<Rightarrow> nat \<Rightarrow> int" where
  \<comment> \<open>\<open>x >> n\<close>, the sign-propagating shift, for \<open>n < 32\<close>\<close>
  "shiftRight x n = toInt32 x div 2 ^ n"

definition remainder :: "int \<Rightarrow> int \<Rightarrow> int" where
  \<comment> \<open>\<open>a % b\<close> on integers: the result has the sign of \<open>a\<close>\<close>
  "remainder a b = sgn a * (\<bar>a\<bar> mod \<bar>b\<bar>)"

definition truncated :: "real \<Rightarrow> int" where
  "truncated x = (if x < 0 then - \<lfloor>- x\<rfloor> else \<lfloor>x\<rfloor>)"

definition fremainder :: "real \<Rightarrow> real \<Rightarrow> real" where
  \<comment> \<open>\<open>x % y\<close> on numbers: \<open>x\<close> minus \<open>y\<close> times the quotient truncated towards zero\<close>
  "fremainder x y = x - y * of_int (truncated (x / y))"

definition clamp :: "real \<Rightarrow> real \<Rightarrow> real \<Rightarrow> real" where
  "clamp v lo hi = min (max v lo) hi"

section \<open>hashString\<close>

text \<open>
  The loop of \<open>hashString\<close>, on the characters still to be read:
  \<open>hash = (hash << 5) - hash + input.charCodeAt(i); hash |= 0\<close>.
\<close>

fun hashLoop :: "int \<Rightarrow> js_string \<Rightarrow> int" where
  "hashLoop hash [] = hash"
| "hashLoop hash (c # cs) = hashLoop (toInt32 (shiftLeft hash 5 - hash + uint c)) cs"

definition hashString :: "js_string \<Rightarrow> int" where
  "hashString input = \<bar>hashLoop 0 input\<bar>"

text \<open>
  The hash as the specification words it: \<open>hash = hash * 31 + charCode\<close> with 32-bit
  two's-complement wrap-around at each step, from 0, then the absolute value.
\<close>

fun spec_accumulate :: "int \<Rightarrow> js_string \<Rightarrow> int" where
  "spec_accumulate hash [] = hash"
| "spec_accumulate hash (c # cs) = spec_accumulate (toInt32 (hash * 31 + uint c)) cs"

definition spec_hash :: "js_string \<Rightarrow> int" where
  "spec_hash input = \<bar>spec_accumulate 0 input\<bar>"

section \<open>Normalising the prompt\<close>

text \<open>
  \<open>trim\<close> removes the white space and line terminators of the language from both ends.
  All of them are single code units.
\<close>

definition isWhiteSpace :: "code_unit \<Rightarrow> bool" where
  "isWhiteSpace c =
     (c = 0x0009 \<or> c = 0x000A \<or> c = 0x000B \<or> c = 0x000C \<or> c = 0x000D \<or> c = 0x0020
      \<or> c = 0x00A0 \<or> c = 0x1680 \<or> (0x2000 \<le> c \<and> c \<le> 0x200A) \<or> c = 0x2028
      \<or> c = 0x2029 \<or> c = 0x202F \<or> c = 0x205F \<or> c = 0x3000 \<or> c = 0xFEFF)"

definition trim :: "js_string \<Rightarrow> js_string" where
  "trim s = rev (dropWhile isWhiteSpace (rev (dropWhile isWhiteSpace s)))"

definition sora :: js_string where
  \<comment> \<open>the string \<open>"sora"\<close>\<close>
  "sora = [0x73, 0x6F, 0x72, 0x61]"

text \<open>
  \<open>toLowerCase\<close> is the runtime's: its Unicode tables are no part of the program, and the
  functions below take it as a parameter. \<open>lowerLatin1\<close> is that mapping on the strings
  whose code units are all below 256 (Basic Latin and Latin-1 Supplement); it is used
  where a concrete string is evaluated.
\<close>

definition lowerUnit :: "code_unit \<Rightarrow> code_unit" where
  "lowerUnit c =
     (if (0x41 \<le> c \<and> c \<le> 0x5A) \<or> (0xC0 \<le> c \<and> c \<le> 0xDE \<and> c \<noteq> 0xD7)
      then c + 0x20 else c)"

definition lowerLatin1 :: "js_string \<Rightarrow> js_string" where
  "lowerLatin1 s = map lowerUnit s"

section \<open>createRng\<close>

text \<open>
  \<open>createRng\<close> returns a closure over its own variable \<open>state\<close>. The store holds the
  \<open>state\<close> variables of all generators created so far; a generator is the index of its
  variable, and \<open>rng g\<close> is one call of the closure. A closure always has its variable:
  \<open>rng g st\<close> is only meant for \<open>g < length st\<close>, which holds for every generator that
  \<open>createRng\<close> returned. The arithmetic of the closure is exact in the program as long as
  the state is an integer below \<open>2^32\<close> in magnitude, and the model is for such states.
\<close>

type_synonym store = "int list"

definition createRng :: "int \<Rightarrow> store \<Rightarrow> nat \<times> store" where
  "createRng seed st = (length st, st @ [if seed = 0 then 1 else seed])"

definition nextState :: "int \<Rightarrow> int" where
  "nextState state = remainder (state * 1664525 + 1013904223) 0x100000000"

definition rng :: "nat \<Rightarrow> store \<Rightarrow> real \<times> store" where
  "rng g st =
     (let state = nextState (st ! g)
      in (real_of_int state / 0x100000000, st[g := state]))"

text \<open>The first \<open>n\<close> values a generator returns, and the store after them.\<close>

fun calls :: "nat \<Rightarrow> nat \<Rightarrow> store \<Rightarrow> real list \<times> store" where
  "calls g 0 st = ([], st)"
| "calls g (Suc n) st =
     (let (r, st) = rng g st; (rs, st) = calls g n st in (r # rs, st))"

section \<open>buildScene\<close>

text \<open>
  Colours are strings in the program, one template each; a colour of the model holds the
  values the template is filled with. The field \<open>size\<close> of a spark is \<open>spark_size\<close> here,
  and the tuple \<open>background\<close> is the list of its two colours.
\<close>

datatype color = Hsl int int int | Hsla real int int real

record LayerSpec =
  color :: color
  radius :: real
  rotation :: real
  speed :: real
  variance :: real

record SparkSpec =
  angle :: real
  distance :: real
  spark_size :: real
  drift :: real
  hueShift :: real

record SceneBlueprint =
  layers :: "LayerSpec list"
  sparks :: "SparkSpec list"
  background :: "color list"
  pulse :: real
  distort :: real

definition layerHue :: "real \<Rightarrow> real \<Rightarrow> nat \<Rightarrow> real" where
  "layerHue hue r index = fremainder (hue + r * 0.25 - 0.125 + real index * 0.03) 1"

text \<open>The callback that builds the layer at \<open>index\<close>: eight calls of the generator.\<close>

definition makeLayer :: "nat \<Rightarrow> real \<Rightarrow> nat \<Rightarrow> store \<Rightarrow> LayerSpec \<times> store" where
  "makeLayer g hue index st =
     (let (r_hue, st) = rng g st;
          (r_sat, st) = rng g st;
          (r_light, st) = rng g st;
          (r_alpha, st) = rng g st;
          (r_radius, st) = rng g st;
          (r_rotation, st) = rng g st;
          (r_speed, st) = rng g st;
          (r_variance, st) = rng g st
      in (\<lparr>color = Hsla (of_int \<lfloor>layerHue hue r_hue index * 360\<rfloor>) (60 + \<lfloor>r_sat * 30\<rfloor>)
                      (45 + \<lfloor>r_light * 20\<rfloor>) (0.35 + r_alpha * 0.35),
           radius = 0.25 + r_radius * 0.65,
           rotation = r_rotation * pi * 2,
           speed = 0.2 + r_speed * 0.9,
           variance = 0.2 + r_variance * 0.6\<rparr>, st))"

text \<open>\<open>Array.from({ length: n }).map(...)\<close> from \<open>index\<close> on, with \<open>n\<close> layers still to build.\<close>

fun buildLayers :: "nat \<Rightarrow> real \<Rightarrow> nat \<Rightarrow> nat \<Rightarrow> store \<Rightarrow> LayerSpec list \<times> store" where
  "buildLayers g hue index 0 st = ([], st)"
| "buildLayers g hue index (Suc n) st =
     (let (l, st) = makeLayer g hue index st;
          (ls, st) = buildLayers g hue (Suc index) n st
      in (l # ls, st))"

definition makeSpark :: "nat \<Rightarrow> store \<Rightarrow> SparkSpec \<times> store" where
  "makeSpark g st =
     (let (r_angle, st) = rng g st;
          (r_distance, st) = rng g st;
          (r_size, st) = rng g st;
          (r_drift, st) = rng g st;
          (r_shift, st) = rng g st
      in (\<lparr>angle = r_angle * pi * 2,
           distance = 0.1 + r_distance * 0.9,
           spark_size = 1 + r_size * 2,
           drift = 0.5 + r_drift * 1.5,
           hueShift = (r_shift - 0.5) * 40\<rparr>, st))"

fun buildSparks :: "nat \<Rightarrow> nat \<Rightarrow> store \<Rightarrow> SparkSpec list \<times> store" where
  "buildSparks g 0 st = ([], st)"
| "buildSparks g (Suc n) st =
     (let (s, st) = makeSpark g st;
          (ss, st) = buildSparks g n st
      in (s # ss, st))"

definition buildScene ::
  "(js_string \<Rightarrow> js_string) \<Rightarrow> js_string \<Rightarrow> store \<Rightarrow> SceneBlueprint \<times> store" where
  "buildScene toLowerCase prompt st =
     (let normalized = toLowerCase (trim prompt);
          baseHash = hashString (if normalized = [] then sora else normalized);
          (g, st) = createRng baseHash st;
          hue = real_of_int (remainder baseHash 360) / 360;
          accent = clamp (real_of_int (remainder (shiftRight baseHash 8) 360) / 360) 0 1;
          background = [Hsl \<lfloor>hue * 360\<rfloor> 68 12,
                        Hsl \<lfloor>fremainder (hue + accent / 3) 1 * 360\<rfloor> 80 22];
          (r_count, st) = rng g st;
          layerCount = nat (5 + \<lfloor>r_count * 5\<rfloor>);
          (layers, st) = buildLayers g hue 0 layerCount st;
          (r_sparks, st) = rng g st;
          sparkCount = nat (120 + \<lfloor>r_sparks * 180\<rfloor>);
          (sparks, st) = buildSparks g sparkCount st;
          (r_pulse, st) = rng g st;
          (r_distort, st) = rng g st
      in (\<lparr>layers = layers, sparks = sparks, background = background,
           pulse = 0.4 + r_pulse * 0.4, distort = 0.5 + r_distort * 0.9\<rparr>, st))"

section \<open>drawScene\<close>

text \<open>
  The drawing context is a record of the attributes \<open>drawScene\<close> assigns, the current
  path, and the list of what has been painted on the canvas so far. Every paint keeps the
  fill style, the filter and the composite operation it was painted with.
\<close>

datatype style =
    Color color
  | LinearGradient real real real real "(real \<times> color) list"
  | RadialGradient real real real real real real "(real \<times> color) list"

datatype segment = MoveTo real real | LineTo real real | Arc real real real real real | ClosePath

datatype blur = FilterNone | Blur real

datatype paint =
    ClearRect real real real real
  | FillRect real real real real style blur string
  | Fill "segment list" style blur string

record Context =
  canvas_width :: nat
  canvas_height :: nat
  fillStyle :: style
  ctx_filter :: blur
  globalCompositeOperation :: string
  path :: "segment list"
  painted :: "paint list"

fun addColorStop :: "style \<Rightarrow> real \<Rightarrow> color \<Rightarrow> style" where
  "addColorStop (LinearGradient x0 y0 x1 y1 stops) offset c =
     LinearGradient x0 y0 x1 y1 (stops @ [(offset, c)])"
| "addColorStop (RadialGradient x0 y0 r0 x1 y1 r1 stops) offset c =
     RadialGradient x0 y0 r0 x1 y1 r1 (stops @ [(offset, c)])"
| "addColorStop (Color k) offset c = Color k"

definition clearRect :: "Context \<Rightarrow> real \<Rightarrow> real \<Rightarrow> real \<Rightarrow> real \<Rightarrow> Context" where
  "clearRect ctx x y w h = ctx\<lparr>painted := painted ctx @ [ClearRect x y w h]\<rparr>"

definition fillRect :: "Context \<Rightarrow> real \<Rightarrow> real \<Rightarrow> real \<Rightarrow> real \<Rightarrow> Context" where
  "fillRect ctx x y w h =
     ctx\<lparr>painted := painted ctx @
       [FillRect x y w h (fillStyle ctx) (ctx_filter ctx) (globalCompositeOperation ctx)]\<rparr>"

definition beginPath :: "Context \<Rightarrow> Context" where
  "beginPath ctx = ctx\<lparr>path := []\<rparr>"

definition moveTo :: "Context \<Rightarrow> real \<Rightarrow> real \<Rightarrow> Context" where
  "moveTo ctx x y = ctx\<lparr>path := path ctx @ [MoveTo x y]\<rparr>"

definition lineTo :: "Context \<Rightarrow> real \<Rightarrow> real \<Rightarrow> Context" where
  "lineTo ctx x y = ctx\<lparr>path := path ctx @ [LineTo x y]\<rparr>"

definition arc :: "Context \<Rightarrow> real \<Rightarrow> real \<Rightarrow> real \<Rightarrow> real \<Rightarrow> real \<Rightarrow> Context" where
  "arc ctx x y r a0 a1 = ctx\<lparr>path := path ctx @ [Arc x y r a0 a1]\<rparr>"

definition closePath :: "Context \<Rightarrow> Context" where
  "closePath ctx = ctx\<lparr>path := path ctx @ [ClosePath]\<rparr>"

definition fill :: "Context \<Rightarrow> Context" where
  "fill ctx =
     ctx\<lparr>painted := painted ctx @
       [Fill (path ctx) (fillStyle ctx) (ctx_filter ctx) (globalCompositeOperation ctx)]\<rparr>"

text \<open>The callback of \<open>blueprint.layers.forEach\<close>.\<close>

definition drawLayer ::
  "real \<Rightarrow> real \<Rightarrow> real \<Rightarrow> real \<Rightarrow> real \<Rightarrow> real \<Rightarrow> nat \<times> LayerSpec \<Rightarrow> Context \<Rightarrow> Context" where
  "drawLayer time cx cy maxDim pulse_now distortion_scale il ctx =
     (let index = fst il; layer = snd il;
          layerTime = time * speed layer + rotation layer;
          radius_now = (maxDim * radius layer * pulse_now) / 2;
          points = 360;
          ctx = beginPath ctx;
          ctx = fold (\<lambda>i ctx.
                  let angle = (real i / real points) * pi * 2;
                      distortion = sin (angle * (2 + real index) + layerTime) * variance layer;
                      x = cx + cos (angle + layerTime * 0.25) * radius_now
                            * (1 + distortion * distortion_scale * 0.4);
                      y = cy + sin (angle + layerTime * 0.25) * radius_now
                            * (1 + distortion * distortion_scale * 0.4)
                  in if i = 0 then moveTo ctx x y else lineTo ctx x y)
                [0..<points + 1] ctx;
          ctx = closePath ctx;
          ctx = ctx\<lparr>fillStyle := Color (color layer)\<rparr>;
          ctx = ctx\<lparr>ctx_filter := Blur (3 + real index * 1.5)\<rparr>
      in fill ctx)"

text \<open>The callback of \<open>blueprint.sparks.forEach\<close>.\<close>

definition drawSpark ::
  "real \<Rightarrow> real \<Rightarrow> real \<Rightarrow> real \<Rightarrow> nat \<times> SparkSpec \<Rightarrow> Context \<Rightarrow> Context" where
  "drawSpark time cx cy maxDim is ctx =
     (let idx = fst is; spark = snd is;
          sparkTime = time * drift spark + real idx * 0.01;
          angle_now = angle spark + sin (sparkTime * 0.5) * 0.5;
          distance_now = distance spark + sin sparkTime * 0.02;
          x = cx + cos angle_now * distance_now * maxDim * 0.45;
          y = cy + sin angle_now * distance_now * maxDim * 0.45;
          gradientSpark = RadialGradient x y 0 x y (spark_size spark * 12) [];
          gradientSpark =
            addColorStop gradientSpark 0 (Hsla (hueShift spark + time * 40) 80 70 0.85);
          gradientSpark = addColorStop gradientSpark 1 (Hsla 0 0 100 0);
          ctx = ctx\<lparr>fillStyle := gradientSpark\<rparr>;
          ctx = beginPath ctx;
          ctx = arc ctx x y (spark_size spark * 12) 0 (pi * 2)
      in fill ctx)"

definition drawScene :: "Context \<Rightarrow> real \<Rightarrow> SceneBlueprint \<Rightarrow> Context" where
  "drawScene ctx time blueprint =
     (let width = real (canvas_width ctx); height = real (canvas_height ctx);
          ctx = clearRect ctx 0 0 width height;
          gradient = LinearGradient 0 0 width height [];
          gradient = addColorStop gradient 0 (background blueprint ! 0);
          gradient = addColorStop gradient 1 (background blueprint ! 1);
          ctx = ctx\<lparr>fillStyle := gradient\<rparr>;
          ctx = fillRect ctx 0 0 width height;
          cx = width / 2;
          cy = height / 2;
          maxDim = max width height;
          pulse_now = 1 + sin (time * pulse blueprint) * 0.05;
          ctx = fold (drawLayer time cx cy maxDim pulse_now (distort blueprint))
                  (enumerate 0 (layers blueprint)) ctx;
          ctx = ctx\<lparr>ctx_filter := FilterNone\<rparr>;
          ctx = ctx\<lparr>globalCompositeOperation := ''lighter''\<rparr>;
          ctx = fold (drawSpark time cx cy maxDim) (enumerate 0 (sparks blueprint)) ctx
      in ctx\<lparr>globalCompositeOperation := ''source-over''\<rparr>)"

text \<open>
  The context a canvas hands out first: black fill style, no filter, normal blending,
  nothing painted. \<open>composite_of\<close> reads the composite operation of a paint.
\<close>

definition getContext2d :: "nat \<Rightarrow> nat \<Rightarrow> Context" where
  "getContext2d w h =
     \<lparr>canvas_width = w, canvas_height = h, fillStyle = Color (Hsl 0 0 0),
      ctx_filter = FilterNone, globalCompositeOperation = ''source-over'',
      path = [], painted = []\<rparr>"

fun composite_of :: "paint \<Rightarrow> string option" where
  "composite_of (ClearRect x y w h) = None"
| "composite_of (FillRect x y w h s f c) = Some c"
| "composite_of (Fill p s f c) = Some c"

text \<open>
  The glow of one spark as the specification words it, with the opacity of the inner
  colour stop as a parameter: a disc of radius \<open>size * 12\<close> around the wobbled position,
  filled with a radial gradient from the inner stop to a transparent outer stop, painted
  without filter under additive blending.
\<close>

definition spec_glow :: "real \<Rightarrow> real \<Rightarrow> real \<Rightarrow> real \<Rightarrow> real \<Rightarrow> nat \<times> SparkSpec \<Rightarrow> paint" where
  "spec_glow inner_alpha elapsedSeconds cx cy maxDimension is =
     (let sparkIndex = fst is; spark = snd is;
          sparkTime = elapsedSeconds * drift spark + real sparkIndex * 0.01;
          a = angle spark + sin (sparkTime * 0.5) * 0.5;
          d = distance spark + sin sparkTime * 0.02;
          x = cx + cos a * d * maxDimension * 0.45;
          y = cy + sin a * d * maxDimension * 0.45
      in Fill [Arc x y (spark_size spark * 12) 0 (2 * pi)]
           (RadialGradient x y 0 x y (spark_size spark * 12)
              [(0, Hsla (hueShift spark + elapsedSeconds * 40) 80 70 inner_alpha),
               (1, Hsla 0 0 100 0)])
           FilterNone ''lighter'')"

section \<open>The values a generator returns\<close>

text \<open>
  \<open>draw s k\<close> is the value of the \<open>k\<close>-th call (counted from 1) of a generator whose
  state is \<open>s\<close>; \<open>layerOf\<close> and \<open>sparkOf\<close> are the layer and the spark that the callbacks
  build from a generator in state \<open>s\<close>.
\<close>

definition draw :: "int \<Rightarrow> nat \<Rightarrow> real" where
  "draw s k = real_of_int ((nextState ^^ k) s) / 0x100000000"

definition layerOf :: "real \<Rightarrow> nat \<Rightarrow> int \<Rightarrow> LayerSpec" where
  "layerOf hue index s =
     \<lparr>color = Hsla (of_int \<lfloor>layerHue hue (draw s 1) index * 360\<rfloor>) (60 + \<lfloor>draw s 2 * 30\<rfloor>)
                (45 + \<lfloor>draw s 3 * 20\<rfloor>) (0.35 + draw s 4 * 0.35),
      radius = 0.25 + draw s 5 * 0.65,
      rotation = draw s 6 * pi * 2,
      speed = 0.2 + draw s 7 * 0.9,
      variance = 0.2 + draw s 8 * 0.6\<rparr>"

definition sparkOf :: "int \<Rightarrow> SparkSpec" where
  "sparkOf s =
     \<lparr>angle = draw s 1 * pi * 2,
      distance = 0.1 + draw s 2 * 0.9,
      spark_size = 1 + draw s 3 * 2,
      drift = 0.5 + draw s 4 * 1.5,
      hueShift = (draw s 5 - 0.5) * 40\<rparr>"

text \<open>
  Names for the values \<open>buildScene\<close> computes before it draws: the hash of the normalised
  prompt, the state its generator starts from, the base hue and the background.
\<close>

definition promptHash :: "(js_string \<Rightarrow> js_string) \<Rightarrow> js_string \<Rightarrow> int" where
  "promptHash toLowerCase prompt =
     (let normalized = toLowerCase (trim prompt)
      in hashString (if normalized = [] then sora else normalized))"

definition promptSeed :: "(js_string \<Rightarrow> js_string) \<Rightarrow> js_string \<Rightarrow> int" where
  "promptSeed toLowerCase prompt =
     (if promptHash toLowerCase prompt = 0 then 1 else promptHash toLowerCase prompt)"

definition sceneHue :: "int \<Rightarrow> real" where
  "sceneHue baseHash = real_of_int (remainder baseHash 360) / 360"

definition sceneBackground :: "int \<Rightarrow> color list" where
  "sceneBackground baseHash =
     (let hue = sceneHue baseHash;
          accent = clamp (real_of_int (remainder (shiftRight baseHash 8) 360) / 360) 0 1
      in [Hsl \<lfloor>hue * 360\<rfloor> 68 12, Hsl \<lfloor>fremainder (hue + accent / 3) 1 * 360\<rfloor> 80 22])"

section \<open>Properties of hashString\<close>

lemma toInt32_cong:
  "x mod 4294967296 = y mod 4294967296 \<Longrightarrow> toInt32 x = toInt32 y"
proof -
  assume "x mod 4294967296 = y mod 4294967296"
  then have "(x + 2147483648) mod 4294967296 = (y + 2147483648) mod 4294967296"
    by (metis mod_add_left_eq)
  then show ?thesis by (simp add: toInt32_def)
qed

lemma toInt32_mod: "toInt32 x mod 4294967296 = x mod 4294967296"
proof -
  have "toInt32 x mod 4294967296
        = ((x + 2147483648) mod 4294967296 - 2147483648) mod 4294967296"
    by (simp add: toInt32_def)
  also have "\<dots> = (x + 2147483648 - 2147483648) mod 4294967296"
    by (rule mod_diff_left_eq)
  finally show ?thesis by simp
qed

lemma toInt32_range: "- 2147483648 \<le> toInt32 x \<and> toInt32 x < 2147483648"
proof -
  have "0 \<le> (x + 2147483648) mod 4294967296" by simp
  moreover have "(x + 2147483648) mod 4294967296 < 4294967296" by simp
  ultimately show ?thesis unfolding toInt32_def by linarith
qed

lemma hash_step: "toInt32 (shiftLeft h 5 - h + c) = toInt32 (h * 31 + c)"
proof (rule toInt32_cong)
  have "shiftLeft h 5 mod 4294967296 = (toInt32 h * 32) mod 4294967296"
    by (simp add: shiftLeft_def toInt32_mod)
  also have "\<dots> = (toInt32 h mod 4294967296 * 32) mod 4294967296"
    by (simp add: mod_mult_left_eq)
  also have "\<dots> = (h * 32) mod 4294967296"
    by (simp add: toInt32_mod mod_mult_left_eq)
  finally have shl: "shiftLeft h 5 mod 4294967296 = (h * 32) mod 4294967296" .
  have "shiftLeft h 5 - h + c = shiftLeft h 5 + (c - h)" by simp
  then have "(shiftLeft h 5 - h + c) mod 4294967296
        = (shiftLeft h 5 + (c - h)) mod 4294967296"
    by (rule arg_cong)
  also have "\<dots> = (shiftLeft h 5 mod 4294967296 + (c - h)) mod 4294967296"
    by (rule mod_add_left_eq [symmetric])
  also have "\<dots> = ((h * 32) mod 4294967296 + (c - h)) mod 4294967296"
    by (simp only: shl)
  also have "\<dots> = (h * 32 + (c - h)) mod 4294967296"
    by (rule mod_add_left_eq)
  also have "h * 32 + (c - h) = h * 31 + c" by simp
  finally show "(shiftLeft h 5 - h + c) mod 4294967296 = (h * 31 + c) mod 4294967296" .
qed

lemma hashLoop_spec: "hashLoop h s = spec_accumulate h s"
  by (induction s arbitrary: h) (simp_all add: hash_step)

lemma hashString_nonneg: "0 \<le> hashString s"
  by (simp add: hashString_def)

text \<open>
  C2. For every string, \<open>hashString\<close> returns the absolute value of the accumulator that
  runs over the characters in order with \<open>hash = hash * 31 + charCode\<close> under 32-bit
  two's-complement wrap-around at each step, starting from 0. The result is a
  non-negative integer, and it is a function of the characters alone.
\<close>

theorem hashString_refines_spec:
  "hashString s = spec_hash s \<and> 0 \<le> hashString s"
  by (simp add: hashString_def spec_hash_def hashLoop_spec)

section \<open>The generator\<close>

lemma remainder_nonneg: "0 \<le> a \<Longrightarrow> 0 < b \<Longrightarrow> remainder a b = a mod b"
  by (cases "a = 0") (simp_all add: remainder_def)

lemma nextState_nonneg:
  "0 \<le> s \<Longrightarrow> nextState s = (s * 1664525 + 1013904223) mod 4294967296"
  by (simp add: nextState_def remainder_nonneg)

lemma nextState_range: "0 \<le> s \<Longrightarrow> 0 \<le> nextState s \<and> nextState s < 4294967296"
  by (simp add: nextState_nonneg)

lemma funpow_nextState_nonneg: "0 \<le> s \<Longrightarrow> 0 \<le> (nextState ^^ k) s"
  by (induction k) (simp_all add: nextState_range)

lemma funpow_nextState_less: "0 \<le> s \<Longrightarrow> 0 < k \<Longrightarrow> (nextState ^^ k) s < 4294967296"
  by (cases k) (simp_all add: nextState_range funpow_nextState_nonneg)

lemma draw_range: "0 \<le> s \<Longrightarrow> 0 < k \<Longrightarrow> 0 \<le> draw s k \<and> draw s k < 1"
  using funpow_nextState_nonneg [of s k] funpow_nextState_less [of s k]
  by (simp add: draw_def)

lemma draw_funpow: "draw ((nextState ^^ m) s) k = draw s (m + k)"
  by (simp add: draw_def funpow_add add.commute)

lemma funpow_funpow: "(f ^^ m) ((f ^^ n) x) = (f ^^ (m + n)) x"
  by (simp add: funpow_add)

lemma rng_draw:
  "g < length st \<Longrightarrow> rng g st = (draw (st ! g) 1, st[g := nextState (st ! g)])"
  by (simp add: rng_def draw_def Let_def)

lemma makeLayer_eq:
  assumes "g < length st"
  shows "makeLayer g hue index st
         = (layerOf hue index (st ! g), st[g := (nextState ^^ 8) (st ! g)])"
  using assms
  by (simp add: makeLayer_def layerOf_def rng_draw draw_def eval_nat_numeral)

lemma makeSpark_eq:
  assumes "g < length st"
  shows "makeSpark g st = (sparkOf (st ! g), st[g := (nextState ^^ 5) (st ! g)])"
  using assms
  by (simp add: makeSpark_def sparkOf_def rng_draw draw_def eval_nat_numeral)

lemma map_upt_Suc_shift: "map f [0..<Suc n] = f 0 # map (\<lambda>j. f (Suc j)) [0..<n]"
  by (simp add: map_upt_Suc del: upt_Suc)

lemma buildLayers_eq:
  "g < length st \<Longrightarrow>
   buildLayers g hue index n st
   = (map (\<lambda>j. layerOf hue (index + j) ((nextState ^^ (8 * j)) (st ! g))) [0..<n],
      st[g := (nextState ^^ (8 * n)) (st ! g)])"
proof (induction n arbitrary: index st)
  case 0
  then show ?case by simp
next
  case (Suc n)
  let ?st = "st[g := (nextState ^^ 8) (st ! g)]"
  have len: "g < length ?st" using Suc.prems by simp
  have at: "?st ! g = (nextState ^^ 8) (st ! g)" using Suc.prems by simp
  have shift: "(nextState ^^ (8 * j)) ((nextState ^^ 8) s) = (nextState ^^ (8 * Suc j)) s" for j s
    by (simp only: funpow_funpow mult_Suc_right add.commute)
  show ?case
    unfolding buildLayers.simps map_upt_Suc_shift
    using Suc.prems
    by (simp add: makeLayer_eq Suc.IH [OF len] at shift del: funpow.simps upt_Suc)
qed

lemma buildSparks_eq:
  "g < length st \<Longrightarrow>
   buildSparks g n st
   = (map (\<lambda>j. sparkOf ((nextState ^^ (5 * j)) (st ! g))) [0..<n],
      st[g := (nextState ^^ (5 * n)) (st ! g)])"
proof (induction n arbitrary: st)
  case 0
  then show ?case by simp
next
  case (Suc n)
  let ?st = "st[g := (nextState ^^ 5) (st ! g)]"
  have len: "g < length ?st" using Suc.prems by simp
  have at: "?st ! g = (nextState ^^ 5) (st ! g)" using Suc.prems by simp
  have shift: "(nextState ^^ (5 * j)) ((nextState ^^ 5) s) = (nextState ^^ (5 * Suc j)) s" for j s
    by (simp only: funpow_funpow mult_Suc_right add.commute)
  show ?case
    unfolding buildSparks.simps map_upt_Suc_shift
    using Suc.prems
    by (simp add: makeSpark_eq Suc.IH [OF len] at shift del: funpow.simps upt_Suc)
qed

section \<open>What buildScene returns\<close>

lemma rng_last:
  "rng (length st) (st @ [(nextState ^^ k) s]) = (draw s (Suc k), st @ [(nextState ^^ Suc k) s])"
  by (simp add: rng_def draw_def Let_def)

lemma buildLayers_last:
  "buildLayers (length st) hue 0 n (st @ [(nextState ^^ k) s])
   = (map (\<lambda>j. layerOf hue j ((nextState ^^ (8 * j + k)) s)) [0..<n],
      st @ [(nextState ^^ (8 * n + k)) s])"
  by (simp add: buildLayers_eq funpow_funpow del: funpow.simps)

lemma buildSparks_last:
  "buildSparks (length st) n (st @ [(nextState ^^ k) s])
   = (map (\<lambda>j. sparkOf ((nextState ^^ (5 * j + k)) s)) [0..<n],
      st @ [(nextState ^^ (5 * n + k)) s])"
  by (simp add: buildSparks_eq funpow_funpow del: funpow.simps)

lemma buildScene_eq:
  "buildScene lc p st =
     (let b = promptHash lc p; s = promptSeed lc p;
          L = nat (5 + \<lfloor>draw s 1 * 5\<rfloor>);
          S = nat (120 + \<lfloor>draw s (8 * L + 2) * 180\<rfloor>)
      in (\<lparr>layers = map (\<lambda>j. layerOf (sceneHue b) j ((nextState ^^ (8 * j + 1)) s)) [0..<L],
           sparks = map (\<lambda>j. sparkOf ((nextState ^^ (5 * j + (8 * L + 2))) s)) [0..<S],
           background = sceneBackground b,
           pulse = 0.4 + draw s (5 * S + (8 * L + 3)) * 0.4,
           distort = 0.5 + draw s (5 * S + (8 * L + 4)) * 0.9\<rparr>,
          st @ [(nextState ^^ (5 * S + (8 * L + 4))) s]))"
proof -
  have start: "[promptSeed lc p] = [(nextState ^^ 0) (promptSeed lc p)]" by simp
  have n1: "Suc 0 = 1" and n2: "\<And>k. Suc (k + 1) = k + 2" and n3: "\<And>k. Suc (k + 2) = k + 3"
    and n4: "\<And>k. Suc (k + 3) = k + 4" and n5: "\<And>a k. Suc (a + (k + 2)) = a + (k + 3)"
    and n6: "\<And>a k. Suc (a + (k + 3)) = a + (k + 4)"
    by simp_all
  show ?thesis
    unfolding buildScene_def createRng_def promptHash_def [symmetric, unfolded Let_def]
      Let_def prod.case promptSeed_def [symmetric]
    apply (subst start)
    apply (simp only: append_assoc [symmetric] rng_last buildLayers_last buildSparks_last
        prod.case n1 n2 n3 n4 n5 n6 sceneHue_def [symmetric])
    apply (simp add: sceneBackground_def Let_def sceneHue_def del: funpow.simps)
    done
qed

lemma hashString_sora: "hashString sora = 3536267"
  by (simp add: hashString_def sora_def toInt32_def shiftLeft_def)

lemma promptHash_empty: "promptHash lowerLatin1 [] = 3536267"
  by (simp add: promptHash_def trim_def lowerLatin1_def hashString_sora)

lemma promptSeed_empty: "promptSeed lowerLatin1 [] = 3536267"
  by (simp add: promptSeed_def promptHash_empty)

lemma promptSeed_pos: "0 < promptSeed lc p"
  using hashString_nonneg [of "if lc (trim p) = [] then sora else lc (trim p)"]
  by (simp add: promptSeed_def promptHash_def Let_def)

lemma draw_promptSeed: "0 < k \<Longrightarrow> 0 \<le> draw (promptSeed lc p) k \<and> draw (promptSeed lc p) k < 1"
  using promptSeed_pos [of lc p] by (simp add: draw_range)

lemma layerOf_ranges:
  assumes "0 \<le> s"
  shows "0.25 \<le> radius (layerOf hue i s) \<and> radius (layerOf hue i s) < 0.90
       \<and> 0 \<le> rotation (layerOf hue i s) \<and> rotation (layerOf hue i s) < 2 * pi
       \<and> 0.2 \<le> speed (layerOf hue i s) \<and> speed (layerOf hue i s) < 1.1
       \<and> 0.2 \<le> variance (layerOf hue i s) \<and> variance (layerOf hue i s) < 0.8"
  using draw_range [OF assms, of 5] draw_range [OF assms, of 6]
    draw_range [OF assms, of 7] draw_range [OF assms, of 8]
  by (simp add: layerOf_def)

lemma sparkOf_ranges:
  assumes "0 \<le> s"
  shows "0 \<le> angle (sparkOf s) \<and> angle (sparkOf s) < 2 * pi
       \<and> 0.1 \<le> distance (sparkOf s) \<and> distance (sparkOf s) < 1.0
       \<and> 1 \<le> spark_size (sparkOf s) \<and> spark_size (sparkOf s) < 3
       \<and> 0.5 \<le> drift (sparkOf s) \<and> drift (sparkOf s) < 2.0
       \<and> - 20 \<le> hueShift (sparkOf s) \<and> hueShift (sparkOf s) < 20"
  using draw_range [OF assms, of 1] draw_range [OF assms, of 2]
    draw_range [OF assms, of 3] draw_range [OF assms, of 4] draw_range [OF assms, of 5]
  by (simp add: sparkOf_def)

lemma count_bounds:
  assumes "0 \<le> u \<and> u < (1::real)"
  shows "5 \<le> nat (5 + \<lfloor>u * 5\<rfloor>) \<and> nat (5 + \<lfloor>u * 5\<rfloor>) \<le> 9"
    and "120 \<le> nat (120 + \<lfloor>u * 180\<rfloor>) \<and> nat (120 + \<lfloor>u * 180\<rfloor>) \<le> 299"
proof -
  have "0 \<le> \<lfloor>u * 5\<rfloor>" using assms by simp
  moreover have "\<lfloor>u * 5\<rfloor> < 5" using assms by (simp add: floor_less_iff)
  ultimately show "5 \<le> nat (5 + \<lfloor>u * 5\<rfloor>) \<and> nat (5 + \<lfloor>u * 5\<rfloor>) \<le> 9" by linarith
  have "0 \<le> \<lfloor>u * 180\<rfloor>" using assms by simp
  moreover have "\<lfloor>u * 180\<rfloor> < 180" using assms by (simp add: floor_less_iff)
  ultimately show "120 \<le> nat (120 + \<lfloor>u * 180\<rfloor>) \<and> nat (120 + \<lfloor>u * 180\<rfloor>) \<le> 299"
    by linarith
qed

lemma layerCount_range:
  "5 \<le> nat (5 + \<lfloor>draw (promptSeed lc p) 1 * 5\<rfloor>) \<and> nat (5 + \<lfloor>draw (promptSeed lc p) 1 * 5\<rfloor>) \<le> 9"
  by (rule count_bounds(1) [OF draw_promptSeed]) simp

lemma sparkCount_range:
  "120 \<le> nat (120 + \<lfloor>draw (promptSeed lc p) (8 * L + 2) * 180\<rfloor>)
   \<and> nat (120 + \<lfloor>draw (promptSeed lc p) (8 * L + 2) * 180\<rfloor>) \<le> 299"
  by (rule count_bounds(2) [OF draw_promptSeed]) simp

lemma layers_of_buildScene:
  "layers (fst (buildScene lc p st))
   = map (\<lambda>j. layerOf (sceneHue (promptHash lc p)) j ((nextState ^^ (8 * j + 1)) (promptSeed lc p)))
       [0..<nat (5 + \<lfloor>draw (promptSeed lc p) 1 * 5\<rfloor>)]"
  by (simp add: buildScene_eq Let_def del: funpow.simps)

lemma sparks_of_buildScene:
  "sparks (fst (buildScene lc p st))
   = map (\<lambda>j. sparkOf ((nextState ^^ (5 * j + (8 * length (layers (fst (buildScene lc p st))) + 2)))
                         (promptSeed lc p)))
       [0..<nat (120 + \<lfloor>draw (promptSeed lc p)
                          (8 * length (layers (fst (buildScene lc p st))) + 2) * 180\<rfloor>)]"
  by (simp add: buildScene_eq Let_def del: funpow.simps)

lemma pulse_of_buildScene:
  "pulse (fst (buildScene lc p st))
   = 0.4 + draw (promptSeed lc p)
       (5 * length (sparks (fst (buildScene lc p st)))
        + (8 * length (layers (fst (buildScene lc p st))) + 3)) * 0.4"
  by (simp add: buildScene_eq Let_def del: funpow.simps)

lemma distort_of_buildScene:
  "distort (fst (buildScene lc p st))
   = 0.5 + draw (promptSeed lc p)
       (5 * length (sparks (fst (buildScene lc p st)))
        + (8 * length (layers (fst (buildScene lc p st))) + 4)) * 0.9"
  by (simp add: buildScene_eq Let_def del: funpow.simps)

lemma background_of_buildScene:
  "background (fst (buildScene lc p st)) = sceneBackground (promptHash lc p)"
  by (simp add: buildScene_eq Let_def del: funpow.simps)

lemma store_of_buildScene:
  "snd (buildScene lc p st)
   = st @ [(nextState ^^ (5 * length (sparks (fst (buildScene lc p st)))
                          + (8 * length (layers (fst (buildScene lc p st))) + 4))) (promptSeed lc p)]"
  by (simp add: buildScene_eq Let_def del: funpow.simps)

text \<open>
  C1. Two calls of \<open>buildScene\<close> with the same prompt return the same blueprint: the
  second call, which runs in the store the first one left, and a call in any other store
  \<open>st'\<close>. The blueprints are equal as values, so layer count, spark count and every field
  agree. The generator variables that existed before a call are left as they were.
\<close>

theorem buildScene_deterministic:
  "fst (buildScene lc p (snd (buildScene lc p st))) = fst (buildScene lc p st)
   \<and> fst (buildScene lc p st') = fst (buildScene lc p st)
   \<and> length (layers (fst (buildScene lc p st'))) = length (layers (fst (buildScene lc p st)))
   \<and> length (sparks (fst (buildScene lc p st'))) = length (sparks (fst (buildScene lc p st)))
   \<and> take (length st) (snd (buildScene lc p st)) = st"
  by (simp add: buildScene_eq Let_def del: funpow.simps)

text \<open>
  C4. For every prompt the blueprint has 5 to 9 layers, 120 to 299 sparks and two
  background stops; every layer has radius in \<open>[0.25, 0.90)\<close>, rotation in \<open>[0, 2\<pi>)\<close>,
  speed in \<open>[0.2, 1.1)\<close> and variance in \<open>[0.2, 0.8)\<close>; every spark has angle in
  \<open>[0, 2\<pi>)\<close>, distance in \<open>[0.1, 1.0)\<close>, size in \<open>[1, 3)\<close>, drift in \<open>[0.5, 2.0)\<close> and
  hueShift in \<open>[-20, 20)\<close>; pulse is in \<open>[0.4, 0.8)\<close> and distort in \<open>[0.5, 1.4)\<close>. The
  fields are real numbers of the model, hence finite.
\<close>

theorem buildScene_ranges:
  "5 \<le> length (layers (fst (buildScene lc p st)))
   \<and> length (layers (fst (buildScene lc p st))) \<le> 9
   \<and> 120 \<le> length (sparks (fst (buildScene lc p st)))
   \<and> length (sparks (fst (buildScene lc p st))) \<le> 299
   \<and> length (background (fst (buildScene lc p st))) = 2
   \<and> (\<forall>l \<in> set (layers (fst (buildScene lc p st))).
        0.25 \<le> radius l \<and> radius l < 0.90 \<and> 0 \<le> rotation l \<and> rotation l < 2 * pi
        \<and> 0.2 \<le> speed l \<and> speed l < 1.1 \<and> 0.2 \<le> variance l \<and> variance l < 0.8)
   \<and> (\<forall>s \<in> set (sparks (fst (buildScene lc p st))).
        0 \<le> angle s \<and> angle s < 2 * pi \<and> 0.1 \<le> distance s \<and> distance s < 1.0
        \<and> 1 \<le> spark_size s \<and> spark_size s < 3 \<and> 0.5 \<le> drift s \<and> drift s < 2.0
        \<and> - 20 \<le> hueShift s \<and> hueShift s < 20)
   \<and> 0.4 \<le> pulse (fst (buildScene lc p st)) \<and> pulse (fst (buildScene lc p st)) < 0.8
   \<and> 0.5 \<le> distort (fst (buildScene lc p st)) \<and> distort (fst (buildScene lc p st)) < 1.4"
proof -
  let ?b = "fst (buildScene lc p st)"
  have seed: "0 \<le> promptSeed lc p" using promptSeed_pos [of lc p] by simp
  have later: "0 \<le> (nextState ^^ m) (promptSeed lc p)" for m
    using seed by (rule funpow_nextState_nonneg)
  have L: "5 \<le> length (layers ?b) \<and> length (layers ?b) \<le> 9"
    using layerCount_range [of lc p] by (simp only: layers_of_buildScene length_map length_upt diff_zero)
  have S: "120 \<le> length (sparks ?b) \<and> length (sparks ?b) \<le> 299"
    using sparkCount_range [of lc p "length (layers ?b)"]
    by (subst (1 2) sparks_of_buildScene) (simp only: length_map length_upt diff_zero)
  have B: "length (background ?b) = 2"
    by (simp add: background_of_buildScene sceneBackground_def Let_def)
  have ls: "\<forall>l \<in> set (layers ?b).
        0.25 \<le> radius l \<and> radius l < 0.90 \<and> 0 \<le> rotation l \<and> rotation l < 2 * pi
        \<and> 0.2 \<le> speed l \<and> speed l < 1.1 \<and> 0.2 \<le> variance l \<and> variance l < 0.8"
  proof
    fix l assume "l \<in> set (layers ?b)"
    then obtain j where "l = layerOf (sceneHue (promptHash lc p)) j
                               ((nextState ^^ (8 * j + 1)) (promptSeed lc p))"
      unfolding layers_of_buildScene by auto
    then show "0.25 \<le> radius l \<and> radius l < 0.90 \<and> 0 \<le> rotation l \<and> rotation l < 2 * pi
        \<and> 0.2 \<le> speed l \<and> speed l < 1.1 \<and> 0.2 \<le> variance l \<and> variance l < 0.8"
      by (simp only: layerOf_ranges [OF later])
  qed
  have ss: "\<forall>s \<in> set (sparks ?b).
        0 \<le> angle s \<and> angle s < 2 * pi \<and> 0.1 \<le> distance s \<and> distance s < 1.0
        \<and> 1 \<le> spark_size s \<and> spark_size s < 3 \<and> 0.5 \<le> drift s \<and> drift s < 2.0
        \<and> - 20 \<le> hueShift s \<and> hueShift s < 20"
  proof
    fix s assume "s \<in> set (sparks ?b)"
    then obtain m where "s = sparkOf ((nextState ^^ m) (promptSeed lc p))"
      by (subst (asm) sparks_of_buildScene) (auto simp del: funpow.simps)
    then show "0 \<le> angle s \<and> angle s < 2 * pi \<and> 0.1 \<le> distance s \<and> distance s < 1.0
        \<and> 1 \<le> spark_size s \<and> spark_size s < 3 \<and> 0.5 \<le> drift s \<and> drift s < 2.0
        \<and> - 20 \<le> hueShift s \<and> hueShift s < 20"
      by (simp only: sparkOf_ranges [OF later])
  qed
  have P: "0.4 \<le> pulse ?b \<and> pulse ?b < 0.8"
  proof -
    have "0 \<le> draw (promptSeed lc p) (5 * length (sparks ?b) + (8 * length (layers ?b) + 3))
          \<and> draw (promptSeed lc p) (5 * length (sparks ?b) + (8 * length (layers ?b) + 3)) < 1"
      by (rule draw_promptSeed) simp
    then show ?thesis by (subst (1 2) pulse_of_buildScene) linarith
  qed
  have D: "0.5 \<le> distort ?b \<and> distort ?b < 1.4"
  proof -
    have "0 \<le> draw (promptSeed lc p) (5 * length (sparks ?b) + (8 * length (layers ?b) + 4))
          \<and> draw (promptSeed lc p) (5 * length (sparks ?b) + (8 * length (layers ?b) + 4)) < 1"
      by (rule draw_promptSeed) simp
    then show ?thesis by (subst (1 2) distort_of_buildScene) linarith
  qed
  from L S B ls ss P D show ?thesis by blast
qed

lemma layers_nth:
  "i < length (layers (fst (buildScene lc p st))) \<Longrightarrow>
   layers (fst (buildScene lc p st)) ! i
   = layerOf (sceneHue (promptHash lc p)) i ((nextState ^^ (8 * i + 1)) (promptSeed lc p))"
  by (simp add: layers_of_buildScene del: funpow.simps)

lemma sparks_nth:
  "j < length (sparks (fst (buildScene lc p st))) \<Longrightarrow>
   sparks (fst (buildScene lc p st)) ! j
   = sparkOf ((nextState ^^ (5 * j + (8 * length (layers (fst (buildScene lc p st))) + 2)))
               (promptSeed lc p))"
  by (subst sparks_of_buildScene, subst (asm) sparks_of_buildScene)
     (simp del: funpow.simps)

lemma default_layerCount: "length (layers (fst (buildScene lowerLatin1 [] []))) = 8"
  by (simp add: layers_of_buildScene promptSeed_empty draw_def nextState_def remainder_def)

lemma state_66: "(nextState ^^ 66) 3536267 = 4137624629"
  by (simp add: eval_nat_numeral nextState_def remainder_def)

lemma default_sparkCount: "length (sparks (fst (buildScene lowerLatin1 [] []))) = 293"
  by (subst sparks_of_buildScene)
     (simp add: default_layerCount promptSeed_empty draw_def state_66 del: funpow.simps)

lemma default_layer0:
  "layers (fst (buildScene lowerLatin1 [] [])) ! 0
   = \<lparr>color = Hsla 302 62 53 (15303494087 / 42949672960),
      radius = 70979255717 / 85899345920,
      rotation = 404531649 * pi / 536870912,
      speed = 13450689323 / 42949672960,
      variance = 2446903361 / 10737418240\<rparr>"
  apply (simp add: layers_nth default_layerCount promptSeed_empty promptHash_empty)
  apply (simp add: layerOf_def draw_def eval_nat_numeral nextState_def remainder_def)
  apply (simp add: sceneHue_def layerHue_def fremainder_def truncated_def remainder_def)
  done

lemma default_spark0:
  "sparks (fst (buildScene lowerLatin1 [] [])) ! 0
   = \<lparr>angle = 188866177 * pi / 134217728,
      distance = 41436249511 / 42949672960,
      spark_size = 1358564833 / 1073741824,
      drift = 16315906219 / 8589934592,
      hueShift = 2262319445 / 134217728\<rparr>"
  apply (simp add: sparks_nth default_sparkCount default_layerCount promptSeed_empty del: funpow.simps)
  apply (simp add: sparkOf_def draw_def funpow_funpow [symmetric] state_66 del: funpow.simps)
  apply (simp add: eval_nat_numeral nextState_def remainder_def)
  done

text \<open>
  The ranges at the empty prompt: its first layer and its first spark, evaluated.
\<close>

theorem buildScene_ranges_witness:
  "layers (fst (buildScene lowerLatin1 [] [])) ! 0 \<in> set (layers (fst (buildScene lowerLatin1 [] [])))
   \<and> radius (layers (fst (buildScene lowerLatin1 [] [])) ! 0) = 70979255717 / 85899345920
   \<and> 0.25 \<le> radius (layers (fst (buildScene lowerLatin1 [] [])) ! 0)
   \<and> radius (layers (fst (buildScene lowerLatin1 [] [])) ! 0) < 0.90
   \<and> sparks (fst (buildScene lowerLatin1 [] [])) ! 0 \<in> set (sparks (fst (buildScene lowerLatin1 [] [])))
   \<and> hueShift (sparks (fst (buildScene lowerLatin1 [] [])) ! 0) = 2262319445 / 134217728
   \<and> - 20 \<le> hueShift (sparks (fst (buildScene lowerLatin1 [] [])) ! 0)
   \<and> hueShift (sparks (fst (buildScene lowerLatin1 [] [])) ! 0) < 20
   \<and> length (layers (fst (buildScene lowerLatin1 [] []))) = 8
   \<and> length (sparks (fst (buildScene lowerLatin1 [] []))) = 293"
proof -
  let ?b = "fst (buildScene lowerLatin1 [] [])"
  have l: "layers ?b ! 0 \<in> set (layers ?b)"
    by (rule nth_mem) (simp add: default_layerCount)
  have s: "sparks ?b ! 0 \<in> set (sparks ?b)"
    by (rule nth_mem) (simp add: default_sparkCount)
  have lv: "radius (layers ?b ! 0) = 70979255717 / 85899345920"
    by (simp add: default_layer0)
  have sv: "hueShift (sparks ?b ! 0) = 2262319445 / 134217728"
    by (simp add: default_spark0)
  from buildScene_ranges [of lowerLatin1 "[]" "[]"] l s
  have "0.25 \<le> radius (layers ?b ! 0) \<and> radius (layers ?b ! 0) < 0.90
        \<and> - 20 \<le> hueShift (sparks ?b ! 0) \<and> hueShift (sparks ?b ! 0) < 20"
    by blast
  with l s lv sv default_layerCount default_sparkCount show ?thesis by blast
qed

lemma layer_draws:
  "layerOf hue i ((nextState ^^ (8 * i + 1)) s)
   = \<lparr>color = Hsla (of_int \<lfloor>fremainder (hue + draw s (8 * i + 2) * 0.25 - 0.125 + real i * 0.03) 1 * 360\<rfloor>)
               (60 + \<lfloor>draw s (8 * i + 3) * 30\<rfloor>) (45 + \<lfloor>draw s (8 * i + 4) * 20\<rfloor>)
               (0.35 + draw s (8 * i + 5) * 0.35),
      radius = 0.25 + draw s (8 * i + 6) * 0.65,
      rotation = draw s (8 * i + 7) * pi * 2,
      speed = 0.2 + draw s (8 * i + 8) * 0.9,
      variance = 0.2 + draw s (8 * i + 9) * 0.6\<rparr>"
proof -
  have k: "8 * i + 1 + 1 = 8 * i + 2" "8 * i + 1 + 2 = 8 * i + 3" "8 * i + 1 + 3 = 8 * i + 4"
    "8 * i + 1 + 4 = 8 * i + 5" "8 * i + 1 + 5 = 8 * i + 6" "8 * i + 1 + 6 = 8 * i + 7"
    "8 * i + 1 + 7 = 8 * i + 8" "8 * i + 1 + 8 = 8 * i + 9"
    by simp_all
  show ?thesis
    by (simp only: layerOf_def layerHue_def draw_funpow k)
qed

text \<open>
  C5, as the code has it. After the single draw for \<open>layerCount\<close>, every layer consumes
  exactly 8 values of the generator, in this order: the hue jitter (with the hue shifted
  by \<open>index * 0.03\<close>), saturation, lightness and alpha of the colour, then radius,
  rotation, speed and variance. So layer \<open>i\<close> is built from draws \<open>8 i + 2\<close> to
  \<open>8 i + 9\<close>, the draw for \<open>sparkCount\<close> comes after \<open>1 + 8 * layerCount\<close> draws, and pulse
  and distort are the last two draws of the build: the generator is left in the state
  reached with the draw for distort.
\<close>

theorem buildScene_draw_order:
  "int (length (layers (fst (buildScene lc p st)))) = 5 + \<lfloor>draw (promptSeed lc p) 1 * 5\<rfloor>
   \<and> (\<forall>i < length (layers (fst (buildScene lc p st))).
         layers (fst (buildScene lc p st)) ! i
         = \<lparr>color = Hsla (of_int \<lfloor>fremainder (sceneHue (promptHash lc p)
                                      + draw (promptSeed lc p) (8 * i + 2) * 0.25 - 0.125
                                      + real i * 0.03) 1 * 360\<rfloor>)
                     (60 + \<lfloor>draw (promptSeed lc p) (8 * i + 3) * 30\<rfloor>)
                     (45 + \<lfloor>draw (promptSeed lc p) (8 * i + 4) * 20\<rfloor>)
                     (0.35 + draw (promptSeed lc p) (8 * i + 5) * 0.35),
            radius = 0.25 + draw (promptSeed lc p) (8 * i + 6) * 0.65,
            rotation = draw (promptSeed lc p) (8 * i + 7) * pi * 2,
            speed = 0.2 + draw (promptSeed lc p) (8 * i + 8) * 0.9,
            variance = 0.2 + draw (promptSeed lc p) (8 * i + 9) * 0.6\<rparr>)
   \<and> int (length (sparks (fst (buildScene lc p st))))
       = 120 + \<lfloor>draw (promptSeed lc p)
                     (1 + 8 * length (layers (fst (buildScene lc p st))) + 1) * 180\<rfloor>
   \<and> pulse (fst (buildScene lc p st))
       = 0.4 + draw (promptSeed lc p)
                 (1 + 8 * length (layers (fst (buildScene lc p st))) + 1
                  + 5 * length (sparks (fst (buildScene lc p st))) + 1) * 0.4
   \<and> distort (fst (buildScene lc p st))
       = 0.5 + draw (promptSeed lc p)
                 (1 + 8 * length (layers (fst (buildScene lc p st))) + 1
                  + 5 * length (sparks (fst (buildScene lc p st))) + 2) * 0.9
   \<and> snd (buildScene lc p st)
       = st @ [(nextState ^^ (1 + 8 * length (layers (fst (buildScene lc p st))) + 1
                              + 5 * length (sparks (fst (buildScene lc p st))) + 2))
                 (promptSeed lc p)]"
proof -
  let ?b = "fst (buildScene lc p st)"
  let ?s = "promptSeed lc p"
  have i1: "1 + 8 * length (layers ?b) + 1 = 8 * length (layers ?b) + 2"
    and i2: "1 + 8 * length (layers ?b) + 1 + 5 * length (sparks ?b) + 1
             = 5 * length (sparks ?b) + (8 * length (layers ?b) + 3)"
    and i3: "1 + 8 * length (layers ?b) + 1 + 5 * length (sparks ?b) + 2
             = 5 * length (sparks ?b) + (8 * length (layers ?b) + 4)"
    by simp_all
  have L: "int (length (layers ?b)) = 5 + \<lfloor>draw ?s 1 * 5\<rfloor>"
    using layerCount_range [of lc p]
    by (simp only: layers_of_buildScene length_map length_upt diff_zero) linarith
  have S: "int (length (sparks ?b)) = 120 + \<lfloor>draw ?s (1 + 8 * length (layers ?b) + 1) * 180\<rfloor>"
    using sparkCount_range [of lc p "length (layers ?b)"]
    by (subst sparks_of_buildScene)
       (simp only: i1 length_map length_upt diff_zero, linarith)
  have ls: "\<forall>i < length (layers ?b). layers ?b ! i
         = \<lparr>color = Hsla (of_int \<lfloor>fremainder (sceneHue (promptHash lc p)
                                      + draw ?s (8 * i + 2) * 0.25 - 0.125
                                      + real i * 0.03) 1 * 360\<rfloor>)
                     (60 + \<lfloor>draw ?s (8 * i + 3) * 30\<rfloor>)
                     (45 + \<lfloor>draw ?s (8 * i + 4) * 20\<rfloor>)
                     (0.35 + draw ?s (8 * i + 5) * 0.35),
            radius = 0.25 + draw ?s (8 * i + 6) * 0.65,
            rotation = draw ?s (8 * i + 7) * pi * 2,
            speed = 0.2 + draw ?s (8 * i + 8) * 0.9,
            variance = 0.2 + draw ?s (8 * i + 9) * 0.6\<rparr>"
  proof (intro allI impI)
    fix i assume "i < length (layers ?b)"
    then show "layers ?b ! i
         = \<lparr>color = Hsla (of_int \<lfloor>fremainder (sceneHue (promptHash lc p)
                                      + draw ?s (8 * i + 2) * 0.25 - 0.125
                                      + real i * 0.03) 1 * 360\<rfloor>)
                     (60 + \<lfloor>draw ?s (8 * i + 3) * 30\<rfloor>)
                     (45 + \<lfloor>draw ?s (8 * i + 4) * 20\<rfloor>)
                     (0.35 + draw ?s (8 * i + 5) * 0.35),
            radius = 0.25 + draw ?s (8 * i + 6) * 0.65,
            rotation = draw ?s (8 * i + 7) * pi * 2,
            speed = 0.2 + draw ?s (8 * i + 8) * 0.9,
            variance = 0.2 + draw ?s (8 * i + 9) * 0.6\<rparr>"
      by (simp only: layers_nth layer_draws)
  qed
  have P: "pulse ?b = 0.4 + draw ?s (1 + 8 * length (layers ?b) + 1 + 5 * length (sparks ?b) + 1) * 0.4"
    by (simp only: i2) (rule pulse_of_buildScene)
  have D: "distort ?b = 0.5 + draw ?s (1 + 8 * length (layers ?b) + 1 + 5 * length (sparks ?b) + 2) * 0.9"
    by (simp only: i3) (rule distort_of_buildScene)
  have E: "snd (buildScene lc p st)
       = st @ [(nextState ^^ (1 + 8 * length (layers ?b) + 1 + 5 * length (sparks ?b) + 2)) ?s]"
    by (simp only: i3) (rule store_of_buildScene)
  from L ls S P D E show ?thesis by blast
qed


text \<open>
  The draw order at the empty prompt: layer 0 and the spark count, evaluated.
\<close>

theorem buildScene_draw_order_witness:
  "(0::nat) < length (layers (fst (buildScene lowerLatin1 [] [])))
   \<and> layers (fst (buildScene lowerLatin1 [] [])) ! 0
       = \<lparr>color = Hsla 302 62 53 (15303494087 / 42949672960),
          radius = 0.25 + draw 3536267 6 * 0.65,
          rotation = draw 3536267 7 * pi * 2,
          speed = 0.2 + draw 3536267 8 * 0.9,
          variance = 0.2 + draw 3536267 9 * 0.6\<rparr>
   \<and> draw 3536267 6 = 3808032249 / 4294967296
   \<and> length (sparks (fst (buildScene lowerLatin1 [] []))) = 293
   \<and> \<lfloor>draw 3536267 66 * 180\<rfloor> = 173"
proof -
  let ?b = "fst (buildScene lowerLatin1 [] [])"
  have pos: "(0::nat) < length (layers ?b)" by (simp add: default_layerCount)
  note T = buildScene_draw_order [of lowerLatin1 "[]" "[]", unfolded promptSeed_empty promptHash_empty]
  from T pos
  have "layers ?b ! 0
       = \<lparr>color = Hsla (of_int \<lfloor>fremainder (sceneHue 3536267 + draw 3536267 (8 * 0 + 2) * 0.25 - 0.125
                                           + real (0::nat) * 0.03) 1 * 360\<rfloor>)
                   (60 + \<lfloor>draw 3536267 (8 * 0 + 3) * 30\<rfloor>) (45 + \<lfloor>draw 3536267 (8 * 0 + 4) * 20\<rfloor>)
                   (0.35 + draw 3536267 (8 * 0 + 5) * 0.35),
          radius = 0.25 + draw 3536267 (8 * 0 + 6) * 0.65,
          rotation = draw 3536267 (8 * 0 + 7) * pi * 2,
          speed = 0.2 + draw 3536267 (8 * 0 + 8) * 0.9,
          variance = 0.2 + draw 3536267 (8 * 0 + 9) * 0.6\<rparr>"
    by blast
  then have l0: "layers ?b ! 0
       = \<lparr>color = Hsla (of_int \<lfloor>fremainder (sceneHue 3536267 + draw 3536267 2 * 0.25 - 0.125
                                           + real (0::nat) * 0.03) 1 * 360\<rfloor>)
                   (60 + \<lfloor>draw 3536267 3 * 30\<rfloor>) (45 + \<lfloor>draw 3536267 4 * 20\<rfloor>)
                   (0.35 + draw 3536267 5 * 0.35),
          radius = 0.25 + draw 3536267 6 * 0.65,
          rotation = draw 3536267 7 * pi * 2,
          speed = 0.2 + draw 3536267 8 * 0.9,
          variance = 0.2 + draw 3536267 9 * 0.6\<rparr>"
    by (simp only: mult_0_right add_0)
  from T
  have "int (length (sparks ?b)) = 120 + \<lfloor>draw 3536267 (1 + 8 * length (layers ?b) + 1) * 180\<rfloor>"
    by blast
  then have sc: "int (length (sparks ?b)) = 120 + \<lfloor>draw 3536267 66 * 180\<rfloor>"
    by (simp add: default_layerCount)
  have d66: "\<lfloor>draw 3536267 66 * 180\<rfloor> = 173"
    by (simp add: draw_def state_66)
  have d6: "draw 3536267 6 = 3808032249 / 4294967296"
    by (simp add: draw_def eval_nat_numeral nextState_def remainder_def)
  have col: "Hsla (of_int \<lfloor>fremainder (sceneHue 3536267 + draw 3536267 2 * 0.25 - 0.125
                                           + real (0::nat) * 0.03) 1 * 360\<rfloor>)
                   (60 + \<lfloor>draw 3536267 3 * 30\<rfloor>) (45 + \<lfloor>draw 3536267 4 * 20\<rfloor>)
                   (0.35 + draw 3536267 5 * 0.35)
             = Hsla 302 62 53 (15303494087 / 42949672960)"
    apply (simp add: draw_def eval_nat_numeral nextState_def remainder_def)
    apply (simp add: sceneHue_def fremainder_def truncated_def remainder_def)
    done
  from sc d66 have "length (sparks ?b) = 293" by simp
  with pos l0 d6 d66 col show ?thesis by (simp only: simp_thms)
qed

text \<open>
  Five draws for each layer is not what the code does: one layer moves the generator by
  8 states, not 5, and at the empty prompt (8 layers, 293 sparks) the spark count is
  neither of the values that the draws after \<open>1 + 5 * 8\<close> draws would give (254 and 176).
\<close>

theorem buildScene_five_draws_counterexample:
  "snd (makeLayer 0 (sceneHue 3536267) 0 [3536267]) = [(nextState ^^ 8) 3536267]
   \<and> (nextState ^^ 8) 3536267 \<noteq> (nextState ^^ 5) 3536267
   \<and> length (layers (fst (buildScene lowerLatin1 [] []))) = 8
   \<and> int (length (sparks (fst (buildScene lowerLatin1 [] []))))
       \<noteq> 120 + \<lfloor>draw (promptSeed lowerLatin1 []) (1 + 5 * 8) * 180\<rfloor>
   \<and> int (length (sparks (fst (buildScene lowerLatin1 [] []))))
       \<noteq> 120 + \<lfloor>draw (promptSeed lowerLatin1 []) (1 + 5 * 8 + 1) * 180\<rfloor>"
proof -
  have a: "snd (makeLayer 0 (sceneHue 3536267) 0 [3536267]) = [(nextState ^^ 8) 3536267]"
    by (simp add: makeLayer_eq del: funpow.simps)
  have b: "(nextState ^^ 8) 3536267 \<noteq> (nextState ^^ 5) 3536267"
    by (simp add: eval_nat_numeral nextState_def remainder_def)
  have c: "\<lfloor>draw 3536267 (1 + 5 * 8) * 180\<rfloor> = 134"
    by (simp add: draw_def eval_nat_numeral nextState_def remainder_def)
  have d: "\<lfloor>draw 3536267 (1 + 5 * 8 + 1) * 180\<rfloor> = 56"
    by (simp add: draw_def eval_nat_numeral nextState_def remainder_def)
  show ?thesis
    using a b c d by (simp add: default_layerCount default_sparkCount promptSeed_empty)
qed

section \<open>The hue of a layer\<close>

lemma hashLoop_range:
  "- 2147483648 \<le> h \<and> h \<le> 2147483647 \<Longrightarrow>
   - 2147483648 \<le> hashLoop h s \<and> hashLoop h s \<le> 2147483647"
proof (induction s arbitrary: h)
  case Nil
  then show ?case by simp
next
  case (Cons c cs)
  have "- 2147483648 \<le> toInt32 (shiftLeft h 5 - h + uint c)
        \<and> toInt32 (shiftLeft h 5 - h + uint c) \<le> 2147483647"
    using toInt32_range [of "shiftLeft h 5 - h + uint c"] by simp
  then show ?case using Cons.IH by simp
qed

lemma hashString_le: "hashString s \<le> 2147483648"
  using hashLoop_range [of 0 s] unfolding hashString_def by linarith

lemma promptSeed_le: "promptSeed lc p \<le> 2147483648"
  using hashString_le [of "if lc (trim p) = [] then sora else lc (trim p)"]
  by (simp add: promptSeed_def promptHash_def Let_def)

lemma mod_step_twice: "((x mod m) * a + c) mod m = (x * a + c) mod (m::int)"
  by (metis mod_add_left_eq mod_mult_left_eq)

lemma dvd_drop_multiple: "(m::int) dvd a + m * k \<Longrightarrow> m dvd a"
proof -
  assume "m dvd a + m * k"
  moreover have "m dvd m * k" by simp
  ultimately show "m dvd a" using dvd_add_left_iff by blast
qed

lemma second_state_nonzero:
  assumes "0 \<le> s" "s \<le> 2147483648"
  shows "nextState (nextState s) \<noteq> 0"
proof
  assume z: "nextState (nextState s) = 0"
  have n1: "nextState s = (s * 1664525 + 1013904223) mod 4294967296"
    using assms by (simp add: nextState_nonneg)
  have "0 \<le> nextState s" using assms by (simp add: nextState_range)
  then have "nextState (nextState s) = (nextState s * 1664525 + 1013904223) mod 4294967296"
    by (rule nextState_nonneg)
  also have "\<dots> = ((s * 1664525 + 1013904223) * 1664525 + 1013904223) mod 4294967296"
    unfolding n1 by (rule mod_step_twice)
  also have "(s * 1664525 + 1013904223) * 1664525 + 1013904223
             = s * 2770643475625 + 1687669940693298"
    by simp
  finally have "(s * 2770643475625 + 1687669940693298) mod 4294967296 = 0"
    using z by simp
  then have "4294967296 dvd s * 2770643475625 + 1687669940693298"
    by (simp add: dvd_eq_mod_eq_0)
  then have "4294967296 dvd 1669859225 * (s * 2770643475625 + 1687669940693298)"
    by (rule dvd_mult)
  also have "1669859225 * (s * 2770643475625 + 1687669940693298)
             = (s + 144243938) + 4294967296 * (s * 1077210662644 + 656156618898247)"
    by simp
  finally have "4294967296 dvd s + 144243938"
    by (rule dvd_drop_multiple)
  then have "(s + 144243938) mod 4294967296 = 0" by (simp add: dvd_eq_mod_eq_0)
  moreover have "(s + 144243938) mod 4294967296 = s + 144243938"
    using assms by (simp add: mod_pos_pos_trivial)
  ultimately show False using assms by simp
qed


lemma fremainder_one_neg: "- 1 < x \<Longrightarrow> x < 0 \<Longrightarrow> fremainder x 1 = x"
proof -
  assume a: "- 1 < x" "x < 0"
  then have "\<lfloor>- x\<rfloor> = 0" by (simp add: floor_eq_iff)
  then show ?thesis using a by (simp add: fremainder_def truncated_def)
qed

lemma fremainder_one_nonneg: "0 \<le> x \<Longrightarrow> 0 \<le> fremainder x 1 \<and> fremainder x 1 < 1"
proof -
  assume "0 \<le> x"
  then have "fremainder x 1 = x - of_int \<lfloor>x\<rfloor>" by (simp add: fremainder_def truncated_def)
  moreover have "of_int \<lfloor>x\<rfloor> \<le> x" by simp
  moreover have "x < of_int \<lfloor>x\<rfloor> + 1" by linarith
  ultimately show ?thesis by linarith
qed

lemma layerHue_bounds:
  assumes "0 \<le> hue" "0 \<le> r" "0 < r \<or> 0 < i"
  shows "- 0.125 < layerHue hue r i \<and> layerHue hue r i < 1"
proof -
  define x where "x = hue + r * 0.25 - 0.125 + real i * 0.03"
  have "0 < r \<or> 0 < real i" using assms(3) by simp
  then have "0 < r / 4 + real i * 3 / 100"
    using assms(2) by (auto intro: add_pos_nonneg add_nonneg_pos)
  moreover have "x = hue + (r / 4 + real i * 3 / 100) - 1 / 8" by (simp add: x_def)
  ultimately have low: "- (1 / 8) < x" using assms(1) by linarith
  have "- (1 / 8) < fremainder x 1 \<and> fremainder x 1 < 1"
  proof (cases "x < 0")
    case True
    moreover have "- 1 < x" using low by linarith
    ultimately have "fremainder x 1 = x" by (intro fremainder_one_neg)
    then show ?thesis using True low by linarith
  next
    case False
    then have "0 \<le> x" by simp
    then have "0 \<le> fremainder x 1 \<and> fremainder x 1 < 1"
      by (rule fremainder_one_nonneg)
    then show ?thesis by linarith
  qed
  then show ?thesis by (simp add: layerHue_def x_def)
qed

lemma sceneHue_range: "0 \<le> b \<Longrightarrow> 0 \<le> sceneHue b \<and> sceneHue b < 1"
  by (simp add: sceneHue_def remainder_nonneg)

lemma promptHash_nonneg: "0 \<le> promptHash lc p"
  by (simp add: promptHash_def Let_def hashString_nonneg)

lemma second_draw_pos: "0 < draw (promptSeed lc p) 2"
proof -
  have s: "0 \<le> promptSeed lc p" using promptSeed_pos [of lc p] by simp
  have "nextState (nextState (promptSeed lc p)) \<noteq> 0"
    using s promptSeed_le by (rule second_state_nonzero)
  moreover have "0 \<le> nextState (nextState (promptSeed lc p))"
    using s by (simp add: nextState_range)
  ultimately have "0 < nextState (nextState (promptSeed lc p))" by linarith
  then show ?thesis by (simp add: draw_def eval_nat_numeral)
qed

lemma em_hash: "promptHash lowerLatin1 [0x65, 0x6D] = 3240"
  by (simp add: promptHash_def trim_def isWhiteSpace_def lowerLatin1_def lowerUnit_def
      hashString_def toInt32_def shiftLeft_def)

lemma em_seed: "promptSeed lowerLatin1 [0x65, 0x6D] = 3240"
  by (simp add: promptSeed_def em_hash)

lemma em_layerCount: "length (layers (fst (buildScene lowerLatin1 [0x65, 0x6D] []))) = 7"
  by (simp add: layers_of_buildScene em_seed draw_def nextState_def remainder_def)

lemma em_layerHue:
  "layerHue (sceneHue 3240) (draw 3240 2) 0 = - 732794355 / 8589934592"
  apply (simp add: draw_def eval_nat_numeral nextState_def remainder_def sceneHue_def)
  apply (simp add: layerHue_def fremainder_def truncated_def)
  done

lemma layerHue_range_all:
  "\<forall>i < length (layers (fst (buildScene lc p st))).
      (\<exists>s l a. color (layers (fst (buildScene lc p st)) ! i)
         = Hsla (of_int \<lfloor>layerHue (sceneHue (promptHash lc p))
                                   (draw (promptSeed lc p) (8 * i + 2)) i * 360\<rfloor>) s l a)
      \<and> - 0.125 < layerHue (sceneHue (promptHash lc p)) (draw (promptSeed lc p) (8 * i + 2)) i
      \<and> layerHue (sceneHue (promptHash lc p)) (draw (promptSeed lc p) (8 * i + 2)) i < 1"
proof (intro allI impI)
  fix i assume i: "i < length (layers (fst (buildScene lc p st)))"
  let ?h = "sceneHue (promptHash lc p)"
  let ?r = "draw (promptSeed lc p) (8 * i + 2)"
  have k: "8 * i + 1 + 1 = 8 * i + 2" by simp
  have "color (layers (fst (buildScene lc p st)) ! i)
        = Hsla (of_int \<lfloor>layerHue ?h ?r i * 360\<rfloor>)
            (60 + \<lfloor>draw (promptSeed lc p) (8 * i + 1 + 2) * 30\<rfloor>)
            (45 + \<lfloor>draw (promptSeed lc p) (8 * i + 1 + 3) * 20\<rfloor>)
            (0.35 + draw (promptSeed lc p) (8 * i + 1 + 4) * 0.35)"
    using i by (simp only: layers_nth layerOf_def draw_funpow k LayerSpec.simps)
  then have c: "\<exists>s l a. color (layers (fst (buildScene lc p st)) ! i)
                 = Hsla (of_int \<lfloor>layerHue ?h ?r i * 360\<rfloor>) s l a"
    by blast
  have h: "0 \<le> ?h" using sceneHue_range [OF promptHash_nonneg] by simp
  have r: "0 \<le> ?r" using draw_promptSeed [of "8 * i + 2" lc p] by simp
  have "0 < ?r \<or> 0 < i"
  proof (cases "i = 0")
    case True
    have "0 < draw (promptSeed lc p) (8 * 0 + 2)"
      using second_draw_pos [of lc p] by (simp only: mult_0_right add_0)
    then show ?thesis unfolding True by blast
  next
    case False
    then show ?thesis by simp
  qed
  with h r have "- 0.125 < layerHue ?h ?r i \<and> layerHue ?h ?r i < 1"
    by (rule layerHue_bounds)
  with c show "(\<exists>s l a. color (layers (fst (buildScene lc p st)) ! i)
                  = Hsla (of_int \<lfloor>layerHue ?h ?r i * 360\<rfloor>) s l a)
               \<and> - 0.125 < layerHue ?h ?r i \<and> layerHue ?h ?r i < 1"
    by blast
qed


lemma em_layer0_color:
  "color (layers (fst (buildScene lowerLatin1 [0x65, 0x6D] [])) ! 0)
   = Hsla (- 31) 68 57 (52154937933 / 85899345920)"
  apply (simp add: layers_nth em_layerCount em_seed em_hash)
  apply (simp add: layerOf_def draw_def eval_nat_numeral nextState_def remainder_def)
  apply (simp add: sceneHue_def layerHue_def fremainder_def truncated_def remainder_def)
  done

text \<open>
  C10. For every prompt and every layer index, the hue that the colour of the layer is
  built from, \<open>(hue + r * 0.25 - 0.125 + index * 0.03) % 1\<close> with the remainder of the
  language, lies strictly between \<open>-0.125\<close> and \<open>1\<close>, and the hue angle of the colour is
  the floor of 360 times that value. It is not confined to \<open>[0, 1)\<close>: for the prompt
  \<open>"em"\<close> the value of layer 0 is negative and the colour carries the hue angle \<open>-31\<close>.
\<close>

theorem layerHue_range:
  "(\<forall>i < length (layers (fst (buildScene lc p st))).
      (\<exists>s l a. color (layers (fst (buildScene lc p st)) ! i)
         = Hsla (of_int \<lfloor>layerHue (sceneHue (promptHash lc p))
                                   (draw (promptSeed lc p) (8 * i + 2)) i * 360\<rfloor>) s l a)
      \<and> - 0.125 < layerHue (sceneHue (promptHash lc p)) (draw (promptSeed lc p) (8 * i + 2)) i
      \<and> layerHue (sceneHue (promptHash lc p)) (draw (promptSeed lc p) (8 * i + 2)) i < 1)
   \<and> (\<exists>q. layerHue (sceneHue (promptHash lowerLatin1 q)) (draw (promptSeed lowerLatin1 q) 2) 0 < 0
          \<and> (\<exists>a. color (layers (fst (buildScene lowerLatin1 q [])) ! 0) = Hsla (- 31) 68 57 a))"
proof
  show "\<forall>i < length (layers (fst (buildScene lc p st))).
      (\<exists>s l a. color (layers (fst (buildScene lc p st)) ! i)
         = Hsla (of_int \<lfloor>layerHue (sceneHue (promptHash lc p))
                                   (draw (promptSeed lc p) (8 * i + 2)) i * 360\<rfloor>) s l a)
      \<and> - 0.125 < layerHue (sceneHue (promptHash lc p)) (draw (promptSeed lc p) (8 * i + 2)) i
      \<and> layerHue (sceneHue (promptHash lc p)) (draw (promptSeed lc p) (8 * i + 2)) i < 1"
    by (rule layerHue_range_all)
  have "layerHue (sceneHue (promptHash lowerLatin1 [0x65, 0x6D]))
          (draw (promptSeed lowerLatin1 [0x65, 0x6D]) 2) 0 < 0"
    by (simp add: em_hash em_seed em_layerHue)
  moreover have "\<exists>a. color (layers (fst (buildScene lowerLatin1 [0x65, 0x6D] [])) ! 0)
                     = Hsla (- 31) 68 57 a"
    using em_layer0_color by blast
  ultimately show "\<exists>q. layerHue (sceneHue (promptHash lowerLatin1 q))
                          (draw (promptSeed lowerLatin1 q) 2) 0 < 0
          \<and> (\<exists>a. color (layers (fst (buildScene lowerLatin1 q [])) ! 0) = Hsla (- 31) 68 57 a)"
    by blast
qed

text \<open>
  The hue of layer 0 at the prompt \<open>"em"\<close>, evaluated.
\<close>

theorem layerHue_range_witness:
  "(0::nat) < length (layers (fst (buildScene lowerLatin1 [0x65, 0x6D] [])))
   \<and> layerHue (sceneHue 3240) (draw 3240 2) 0 = - 732794355 / 8589934592
   \<and> - 0.125 < layerHue (sceneHue 3240) (draw 3240 2) 0
   \<and> layerHue (sceneHue 3240) (draw 3240 2) 0 < 1
   \<and> color (layers (fst (buildScene lowerLatin1 [0x65, 0x6D] [])) ! 0)
       = Hsla (- 31) 68 57 (52154937933 / 85899345920)"
proof -
  let ?b = "fst (buildScene lowerLatin1 [0x65, 0x6D] [])"
  have pos: "(0::nat) < length (layers ?b)" by (simp add: em_layerCount)
  note T = layerHue_range [of lowerLatin1 "[0x65, 0x6D]" "[]", unfolded em_hash em_seed]
  from T pos
  have "- 0.125 < layerHue (sceneHue 3240) (draw 3240 (8 * 0 + 2)) 0
        \<and> layerHue (sceneHue 3240) (draw 3240 (8 * 0 + 2)) 0 < 1"
    by blast
  then have "- 0.125 < layerHue (sceneHue 3240) (draw 3240 2) 0
        \<and> layerHue (sceneHue 3240) (draw 3240 2) 0 < 1"
    by (simp only: mult_0_right add_0)
  with pos em_layerHue em_layer0_color show ?thesis by blast
qed

section \<open>The sequence of a generator\<close>

lemma calls_eq:
  "g < length st \<Longrightarrow>
   calls g n st = (map (\<lambda>k. draw (st ! g) (Suc k)) [0..<n], st[g := (nextState ^^ n) (st ! g)])"
proof (induction n arbitrary: st)
  case 0
  then show ?case by simp
next
  case (Suc n)
  let ?st = "st[g := nextState (st ! g)]"
  have len: "g < length ?st" using Suc.prems by simp
  have at: "?st ! g = nextState (st ! g)" using Suc.prems by simp
  have d: "draw (nextState s) (Suc k) = draw s (Suc (Suc k))" for s k
    by (simp add: draw_def funpow_swap1)
  have f: "(nextState ^^ n) (nextState s) = (nextState ^^ Suc n) s" for s
    by (simp add: funpow_swap1)
  show ?case
    unfolding calls.simps map_upt_Suc_shift
    using Suc.prems
    by (simp add: rng_draw Suc.IH [OF len] at d f del: funpow.simps upt_Suc)
qed

lemma funpow_step:
  "0 \<le> s \<Longrightarrow>
   (nextState ^^ k) s = ((\<lambda>state. (state * 1664525 + 1013904223) mod 4294967296) ^^ k) s"
proof (induction k)
  case 0
  then show ?case by simp
next
  case (Suc k)
  have "0 \<le> (nextState ^^ k) s" using Suc.prems by (rule funpow_nextState_nonneg)
  then have "nextState ((nextState ^^ k) s)
             = ((nextState ^^ k) s * 1664525 + 1013904223) mod 4294967296"
    by (rule nextState_nonneg)
  then show ?case using Suc by simp
qed

text \<open>
  C3, for the seeds on which the arithmetic of the closure is exact and non-negative: an
  integer seed with \<open>0 \<le> seed < 2^32\<close> (\<open>buildScene\<close> passes a hash, which is between 0
  and \<open>2^31\<close>). The generator starts from the seed, or from 1 when the seed is zero; the
  \<open>k\<close>-th call sets the state to the \<open>k\<close>-fold iterate of
  \<open>state \<mapsto> (state * 1664525 + 1013904223) mod 2^32\<close> and returns that state divided by
  \<open>2^32\<close>; every returned value lies in \<open>[0, 1)\<close>; and of two generators created from the
  same seed, the second returns the same \<open>n\<close> values as the first, also after the first
  has been called.
\<close>

theorem createRng_sequence:
  assumes "0 \<le> seed" "seed < 4294967296"
  shows "fst (createRng seed st) = length st
   \<and> snd (createRng seed st) = st @ [if seed = 0 then 1 else seed]
   \<and> fst (calls (length st) n (snd (createRng seed st)))
       = map (\<lambda>k. real_of_int
                     (((\<lambda>state. (state * 1664525 + 1013904223) mod 4294967296) ^^ Suc k)
                        (if seed = 0 then 1 else seed)) / 4294967296) [0..<n]
   \<and> snd (calls (length st) n (snd (createRng seed st)))
       = st @ [((\<lambda>state. (state * 1664525 + 1013904223) mod 4294967296) ^^ n)
                 (if seed = 0 then 1 else seed)]
   \<and> (\<forall>r \<in> set (fst (calls (length st) n (snd (createRng seed st)))). 0 \<le> r \<and> r < 1)
   \<and> fst (calls (Suc (length st)) n
             (snd (calls (length st) n (snd (createRng seed (snd (createRng seed st)))))))
       = fst (calls (length st) n (snd (createRng seed (snd (createRng seed st)))))"
proof -
  let ?s = "if seed = 0 then 1 else seed"
  have s: "0 \<le> ?s" using assms by simp
  have c: "calls (length st) n (st @ [?s])
           = (map (\<lambda>k. draw ?s (Suc k)) [0..<n], st @ [(nextState ^^ n) ?s])"
    by (simp add: calls_eq del: funpow.simps)
  have 1: "fst (createRng seed st) = length st" by (simp add: createRng_def)
  have 2: "snd (createRng seed st) = st @ [?s]" by (simp add: createRng_def)
  have 3: "fst (calls (length st) n (snd (createRng seed st)))
       = map (\<lambda>k. real_of_int
                     (((\<lambda>state. (state * 1664525 + 1013904223) mod 4294967296) ^^ Suc k) ?s)
                   / 4294967296) [0..<n]"
    unfolding 2 c by (simp add: draw_def funpow_step [OF s, symmetric] del: funpow.simps)
  have 4: "snd (calls (length st) n (snd (createRng seed st)))
       = st @ [((\<lambda>state. (state * 1664525 + 1013904223) mod 4294967296) ^^ n) ?s]"
    unfolding 2 c by (simp add: funpow_step [OF s, symmetric] del: funpow.simps)
  have 5: "\<forall>r \<in> set (fst (calls (length st) n (snd (createRng seed st)))). 0 \<le> r \<and> r < 1"
    unfolding 2 c using draw_range [OF s] by auto
  have two: "snd (createRng seed (snd (createRng seed st))) = st @ [?s, ?s]"
    by (simp add: createRng_def)
  have g1: "calls (length st) n (st @ [?s, ?s])
            = (map (\<lambda>k. draw ?s (Suc k)) [0..<n], st @ [(nextState ^^ n) ?s, ?s])"
    by (simp add: calls_eq nth_append list_update_append del: funpow.simps)
  have g2: "calls (Suc (length st)) n (st @ [(nextState ^^ n) ?s, ?s])
            = (map (\<lambda>k. draw ?s (Suc k)) [0..<n], st @ [(nextState ^^ n) ?s, (nextState ^^ n) ?s])"
    by (simp add: calls_eq nth_append list_update_append del: funpow.simps)
  have 6: "fst (calls (Suc (length st)) n
             (snd (calls (length st) n (snd (createRng seed (snd (createRng seed st)))))))
       = fst (calls (length st) n (snd (createRng seed (snd (createRng seed st)))))"
    unfolding two g1 snd_conv g2 fst_conv ..
  from 1 2 3 4 5 6 show ?thesis by blast
qed

text \<open>
  With the seed \<open>-1000\<close> the first value returned is negative: the remainder of the
  language has the sign of the dividend.
\<close>

theorem createRng_negative_seed_counterexample:
  "fst (rng (fst (createRng (- 1000) [])) (snd (createRng (- 1000) []))) = - 650620777 / 4294967296
   \<and> \<not> 0 \<le> fst (rng (fst (createRng (- 1000) [])) (snd (createRng (- 1000) [])))"
  by (simp add: createRng_def rng_def nextState_def remainder_def)

text \<open>
  The generator created from the seed 0 and its first two values, evaluated.
\<close>

theorem createRng_sequence_witness:
  "(0::int) \<le> 0 \<and> (0::int) < 4294967296
   \<and> snd (createRng 0 []) = [1]
   \<and> fst (calls 0 2 (snd (createRng 0 []))) = [1015568748 / 4294967296, 1586005467 / 4294967296]
   \<and> snd (calls 0 2 (snd (createRng 0 []))) = [1586005467]"
proof -
  have a: "(0::int) \<le> 0" and b: "(0::int) < 4294967296" by simp_all
  note T = createRng_sequence [OF a b, of "[]" 2]
  from T have st: "snd (createRng 0 []) = [1]" by simp
  from T have "fst (calls 0 2 (snd (createRng 0 [])))
       = map (\<lambda>k. real_of_int
                     (((\<lambda>state. (state * 1664525 + 1013904223) mod 4294967296) ^^ Suc k) 1)
                   / 4294967296) [0..<2]"
    by (elim conjE) simp
  then have outs: "fst (calls 0 2 (snd (createRng 0 [])))
       = [1015568748 / 4294967296, 1586005467 / 4294967296]"
    by (simp add: eval_nat_numeral upt_rec)
  from T have "snd (calls 0 2 (snd (createRng 0 [])))
       = [((\<lambda>state. (state * 1664525 + 1013904223) mod 4294967296) ^^ 2) 1]"
    by (elim conjE) simp
  then have fin: "snd (calls 0 2 (snd (createRng 0 []))) = [1586005467]"
    by (simp add: eval_nat_numeral)
  from a b st outs fin show ?thesis by blast
qed

section \<open>Normalisation of the prompt\<close>

lemma trim_all_white: "\<forall>c \<in> set p. isWhiteSpace c \<Longrightarrow> trim p = []"
proof -
  assume "\<forall>c \<in> set p. isWhiteSpace c"
  then have "dropWhile isWhiteSpace p = []" by (rule dropWhile_eq_Nil_conv [THEN iffD2])
  then show ?thesis by (simp only: trim_def rev.simps dropWhile.simps)
qed

lemma dropWhile_from_end:
  assumes "\<not> P x"
  shows "\<exists>w. dropWhile P (rev xs @ [x]) = w @ [x]"
proof (cases "\<forall>y \<in> set (rev xs). P y")
  case True
  then have "dropWhile P (rev xs @ [x]) = dropWhile P [x]"
    by (intro dropWhile_append2) blast
  then show ?thesis using assms by simp
next
  case False
  then obtain y where "y \<in> set (rev xs)" "\<not> P y" by blast
  then have "dropWhile P (rev xs @ [x]) = dropWhile P (rev xs) @ [x]"
    by (simp add: dropWhile_append1)
  then show ?thesis by simp
qed

lemma trim_idem: "trim (trim s) = trim s"
proof (cases "dropWhile isWhiteSpace s")
  case Nil
  then have "trim s = []" by (simp only: trim_def rev.simps dropWhile.simps)
  moreover have "trim [] = []" by (simp only: trim_def rev.simps dropWhile.simps)
  ultimately show ?thesis by simp
next
  case (Cons x xs)
  then have nw: "\<not> isWhiteSpace x"
    using hd_dropWhile [of isWhiteSpace s] by simp
  from dropWhile_from_end [of isWhiteSpace x xs] nw
  obtain w where w: "dropWhile isWhiteSpace (rev xs @ [x]) = w @ [x]" by blast
  have t: "trim s = x # rev w" by (simp add: trim_def Cons w)
  have "dropWhile isWhiteSpace (x # rev w) = x # rev w" using nw by simp
  moreover have "dropWhile isWhiteSpace (w @ [x]) = w @ [x]"
    using w dropWhile_idem [of isWhiteSpace "rev xs @ [x]"] by simp
  ultimately show ?thesis unfolding t by (simp add: trim_def)
qed

lemma lowerUnit_shape:
  "lowerUnit c = c \<or> (0x61 \<le> lowerUnit c \<and> lowerUnit c \<le> 0x7A)
   \<or> (0xE0 \<le> lowerUnit c \<and> lowerUnit c \<le> 0xFE)"
  unfolding lowerUnit_def
  apply (simp split: if_splits)
  apply unat_arith
  apply simp_all
  done

lemma lowerUnit_idem: "lowerUnit (lowerUnit c) = lowerUnit c"
proof -
  have "\<not> (0x41 \<le> lowerUnit c \<and> lowerUnit c \<le> 0x5A)
        \<and> \<not> (0xC0 \<le> lowerUnit c \<and> lowerUnit c \<le> 0xDE \<and> lowerUnit c \<noteq> 0xD7)"
    unfolding lowerUnit_def
    apply (simp split: if_splits)
    apply unat_arith
    done
  then show ?thesis by (subst lowerUnit_def) simp
qed

lemma isWhiteSpace_lowerUnit: "isWhiteSpace (lowerUnit c) = isWhiteSpace c"
proof (cases "lowerUnit c = c")
  case True
  then show ?thesis by simp
next
  case False
  then have up: "(0x41 \<le> c \<and> c \<le> 0x5A) \<or> (0xC0 \<le> c \<and> c \<le> 0xDE \<and> c \<noteq> 0xD7)"
    by (auto simp: lowerUnit_def split: if_splits)
  then have "\<not> isWhiteSpace c"
    unfolding isWhiteSpace_def by (auto simp: word_le_nat_alt)
  moreover from False lowerUnit_shape [of c]
  have "(0x61 \<le> lowerUnit c \<and> lowerUnit c \<le> 0x7A) \<or> (0xE0 \<le> lowerUnit c \<and> lowerUnit c \<le> 0xFE)"
    by blast
  then have "\<not> isWhiteSpace (lowerUnit c)"
    unfolding isWhiteSpace_def by (auto simp: word_le_nat_alt)
  ultimately show ?thesis by simp
qed


lemma lowerLatin1_idem: "lowerLatin1 (lowerLatin1 s) = lowerLatin1 s"
  by (simp add: lowerLatin1_def lowerUnit_idem)

lemma trim_lowerLatin1: "trim (lowerLatin1 s) = lowerLatin1 (trim s)"
proof -
  have "isWhiteSpace \<circ> lowerUnit = isWhiteSpace"
    by (rule ext) (simp add: isWhiteSpace_lowerUnit)
  then show ?thesis
    by (simp add: trim_def lowerLatin1_def dropWhile_map rev_map)
qed

lemma lowerLatin1_keeps_trimmed: "trim s = s \<longrightarrow> trim (lowerLatin1 s) = lowerLatin1 s"
  by (simp add: trim_lowerLatin1)

lemma buildScene_promptHash:
  "promptHash lc p = promptHash lc q \<Longrightarrow> buildScene lc p st = buildScene lc q st"
  by (simp add: buildScene_eq promptSeed_def Let_def del: funpow.simps)

text \<open>
  C6. A prompt that consists of white space only (its trimmed form is empty) yields the
  same result as the empty prompt, as the prompt of three spaces and as the prompt
  \<open>"sora"\<close>: the blueprint of the default token, whose hash seeds the build. The runtime's
  \<open>toLowerCase\<close> enters through two facts: it maps the empty string to itself, and
  \<open>"sora"\<close> to itself.
\<close>

theorem whitespace_prompt_default:
  assumes "toLowerCase [] = []" and "toLowerCase sora = sora"
    and "\<forall>c \<in> set p. isWhiteSpace c"
  shows "buildScene toLowerCase p st = buildScene toLowerCase [] st
   \<and> buildScene toLowerCase p st = buildScene toLowerCase [0x20, 0x20, 0x20] st
   \<and> buildScene toLowerCase p st = buildScene toLowerCase sora st
   \<and> promptHash toLowerCase p = hashString sora"
proof -
  have white: "\<forall>c \<in> set q. isWhiteSpace c \<Longrightarrow> promptHash toLowerCase q = hashString sora" for q
    by (simp add: promptHash_def trim_all_white assms(1))
  have p: "promptHash toLowerCase p = hashString sora" using assms(3) by (rule white)
  have e: "promptHash toLowerCase [] = hashString sora" by (rule white) simp
  have s: "promptHash toLowerCase [0x20, 0x20, 0x20] = hashString sora"
    by (rule white) (simp add: isWhiteSpace_def)
  have "trim sora = sora" by (simp add: trim_def sora_def isWhiteSpace_def)
  then have d: "promptHash toLowerCase sora = hashString sora"
    by (simp add: promptHash_def assms(2))
  show ?thesis
    using p buildScene_promptHash [of toLowerCase p "[]" st]
      buildScene_promptHash [of toLowerCase p "[0x20, 0x20, 0x20]" st]
      buildScene_promptHash [of toLowerCase p sora st]
    by (simp only: p e s d simp_thms)
qed

text \<open>
  The prompt of a tab, a space, a no-break space and a line feed, with \<open>lowerLatin1\<close>.
\<close>

theorem whitespace_prompt_default_witness:
  "lowerLatin1 [] = [] \<and> lowerLatin1 sora = sora
   \<and> isWhiteSpace 0x09 \<and> isWhiteSpace 0x20 \<and> isWhiteSpace 0xA0 \<and> isWhiteSpace 0x0A
   \<and> buildScene lowerLatin1 [0x09, 0x20, 0xA0, 0x0A] [] = buildScene lowerLatin1 [] []
   \<and> buildScene lowerLatin1 [0x09, 0x20, 0xA0, 0x0A] [] = buildScene lowerLatin1 sora []
   \<and> promptHash lowerLatin1 [0x09, 0x20, 0xA0, 0x0A] = 3536267"
proof -
  have a: "lowerLatin1 [] = []" by (simp add: lowerLatin1_def)
  have b: "lowerLatin1 sora = sora" by (simp add: lowerLatin1_def lowerUnit_def sora_def)
  have w: "isWhiteSpace 0x09 \<and> isWhiteSpace 0x20 \<and> isWhiteSpace 0xA0 \<and> isWhiteSpace 0x0A"
    by (simp add: isWhiteSpace_def)
  then have c: "\<forall>c \<in> set [0x09, 0x20, 0xA0, 0x0A]. isWhiteSpace c" by simp
  note T = whitespace_prompt_default [OF a b c, of "[]", unfolded hashString_sora]
  from T a b w show ?thesis by blast
qed

text \<open>
  C7. \<open>buildScene\<close> returns the same for a prompt and for its normal form
  \<open>p.trim().toLowerCase()\<close>. The runtime's \<open>toLowerCase\<close> enters through two facts: it is
  idempotent, and a string without white space at its ends is mapped to such a string.
\<close>

theorem normalized_prompt_same_scene:
  assumes "\<forall>s. toLowerCase (toLowerCase s) = toLowerCase s"
    and "\<forall>s. trim s = s \<longrightarrow> trim (toLowerCase s) = toLowerCase s"
  shows "buildScene toLowerCase p st = buildScene toLowerCase (toLowerCase (trim p)) st"
proof -
  have "trim (toLowerCase (trim p)) = toLowerCase (trim p)"
    using assms(2) trim_idem [of p] by blast
  then have "toLowerCase (trim (toLowerCase (trim p))) = toLowerCase (trim p)"
    using assms(1) by simp
  then have "promptHash toLowerCase (toLowerCase (trim p)) = promptHash toLowerCase p"
    by (simp add: promptHash_def)
  then show ?thesis by (rule buildScene_promptHash [symmetric])
qed

text \<open>
  The prompt \<open>" EM\n"\<close> and its normal form \<open>"em"\<close>, with \<open>lowerLatin1\<close>, which has the two
  properties.
\<close>

theorem normalized_prompt_same_scene_witness:
  "lowerLatin1 (trim [0x20, 0x45, 0x4D, 0x0A]) = [0x65, 0x6D]
   \<and> buildScene lowerLatin1 [0x20, 0x45, 0x4D, 0x0A] [] = buildScene lowerLatin1 [0x65, 0x6D] []"
proof -
  have a: "\<forall>s. lowerLatin1 (lowerLatin1 s) = lowerLatin1 s" by (simp add: lowerLatin1_idem)
  have b: "\<forall>s. trim s = s \<longrightarrow> trim (lowerLatin1 s) = lowerLatin1 s"
    by (simp add: lowerLatin1_keeps_trimmed)
  have c: "lowerLatin1 (trim [0x20, 0x45, 0x4D, 0x0A]) = [0x65, 0x6D]"
    by (simp add: trim_def isWhiteSpace_def lowerLatin1_def lowerUnit_def)
  from normalized_prompt_same_scene [OF a b, of "[0x20, 0x45, 0x4D, 0x0A]" "[]"] c
  show ?thesis by (simp only: c simp_thms)
qed

section \<open>What drawScene paints\<close>

lemma drawSpark_eq:
  "drawSpark time cx cy maxDim is ctx
   = ctx\<lparr>fillStyle :=
            (let sparkTime = time * drift (snd is) + real (fst is) * 0.01;
                 a = angle (snd is) + sin (sparkTime * 0.5) * 0.5;
                 d = distance (snd is) + sin sparkTime * 0.02;
                 x = cx + cos a * d * maxDim * 0.45;
                 y = cy + sin a * d * maxDim * 0.45
             in RadialGradient x y 0 x y (spark_size (snd is) * 12)
                  [(0, Hsla (hueShift (snd is) + time * 40) 80 70 0.85), (1, Hsla 0 0 100 0)]),
         path :=
            (let sparkTime = time * drift (snd is) + real (fst is) * 0.01;
                 a = angle (snd is) + sin (sparkTime * 0.5) * 0.5;
                 d = distance (snd is) + sin sparkTime * 0.02;
                 x = cx + cos a * d * maxDim * 0.45;
                 y = cy + sin a * d * maxDim * 0.45
             in [Arc x y (spark_size (snd is) * 12) 0 (pi * 2)]),
         painted := painted ctx @
            [(let sparkTime = time * drift (snd is) + real (fst is) * 0.01;
                 a = angle (snd is) + sin (sparkTime * 0.5) * 0.5;
                 d = distance (snd is) + sin sparkTime * 0.02;
                 x = cx + cos a * d * maxDim * 0.45;
                 y = cy + sin a * d * maxDim * 0.45
             in Fill [Arc x y (spark_size (snd is) * 12) 0 (pi * 2)]
                  (RadialGradient x y 0 x y (spark_size (snd is) * 12)
                     [(0, Hsla (hueShift (snd is) + time * 40) 80 70 0.85), (1, Hsla 0 0 100 0)])
                  (ctx_filter ctx) (globalCompositeOperation ctx))]\<rparr>"
  by (simp add: drawSpark_def Let_def beginPath_def arc_def fill_def)

lemma drawSpark_painted:
  "ctx_filter ctx = FilterNone \<Longrightarrow> globalCompositeOperation ctx = ''lighter'' \<Longrightarrow>
   painted (drawSpark time cx cy maxDim is ctx)
   = painted ctx @ [spec_glow 0.85 time cx cy maxDim is]"
  by (simp add: drawSpark_eq spec_glow_def Let_def mult.commute)

lemma drawSpark_keeps:
  "ctx_filter (drawSpark time cx cy maxDim is ctx) = ctx_filter ctx
   \<and> globalCompositeOperation (drawSpark time cx cy maxDim is ctx) = globalCompositeOperation ctx
   \<and> canvas_width (drawSpark time cx cy maxDim is ctx) = canvas_width ctx
   \<and> canvas_height (drawSpark time cx cy maxDim is ctx) = canvas_height ctx"
  by (simp add: drawSpark_eq)

lemma fold_drawSpark:
  "ctx_filter ctx = FilterNone \<Longrightarrow> globalCompositeOperation ctx = ''lighter'' \<Longrightarrow>
   painted (fold (drawSpark time cx cy maxDim) xs ctx)
     = painted ctx @ map (spec_glow 0.85 time cx cy maxDim) xs
   \<and> ctx_filter (fold (drawSpark time cx cy maxDim) xs ctx) = FilterNone
   \<and> globalCompositeOperation (fold (drawSpark time cx cy maxDim) xs ctx) = ''lighter''"
proof (induction xs arbitrary: ctx)
  case Nil
  then show ?case by simp
next
  case (Cons x xs)
  have f: "ctx_filter (drawSpark time cx cy maxDim x ctx) = FilterNone"
    using Cons.prems drawSpark_keeps [of time cx cy maxDim x ctx] by simp
  have g: "globalCompositeOperation (drawSpark time cx cy maxDim x ctx) = ''lighter''"
    using Cons.prems drawSpark_keeps [of time cx cy maxDim x ctx] by simp
  show ?case
    using Cons.IH [OF f g] Cons.prems by (simp add: drawSpark_painted)
qed

lemma fold_vertices_keeps:
  "painted (fold (\<lambda>i ctx. if i = 0 then moveTo ctx (f i) (g i) else lineTo ctx (f i) (g i)) ps ctx)
     = painted ctx
   \<and> globalCompositeOperation
       (fold (\<lambda>i ctx. if i = 0 then moveTo ctx (f i) (g i) else lineTo ctx (f i) (g i)) ps ctx)
     = globalCompositeOperation ctx"
  by (induction ps arbitrary: ctx) (simp_all add: moveTo_def lineTo_def)

lemma drawLayer_painted:
  "length (painted (drawLayer time cx cy maxDim pn ds il ctx)) = Suc (length (painted ctx))
   \<and> take (length (painted ctx)) (painted (drawLayer time cx cy maxDim pn ds il ctx)) = painted ctx
   \<and> globalCompositeOperation (drawLayer time cx cy maxDim pn ds il ctx)
       = globalCompositeOperation ctx"
  by (simp add: drawLayer_def Let_def fill_def closePath_def beginPath_def fold_vertices_keeps
      del: upt_Suc)

lemma fold_drawLayer:
  "length (painted (fold (drawLayer time cx cy maxDim pn ds) xs ctx))
     = length (painted ctx) + length xs
   \<and> take (length (painted ctx)) (painted (fold (drawLayer time cx cy maxDim pn ds) xs ctx))
     = painted ctx"
proof (induction xs arbitrary: ctx)
  case Nil
  then show ?case by simp
next
  case (Cons x xs)
  let ?c = "drawLayer time cx cy maxDim pn ds x ctx"
  have l: "length (painted ?c) = Suc (length (painted ctx))"
    and t: "take (length (painted ctx)) (painted ?c) = painted ctx"
    using drawLayer_painted [of time cx cy maxDim pn ds x ctx] by simp_all
  have "take (length (painted ctx)) (painted (fold (drawLayer time cx cy maxDim pn ds) xs ?c))
        = take (length (painted ctx))
            (take (length (painted ?c)) (painted (fold (drawLayer time cx cy maxDim pn ds) xs ?c)))"
    by (simp add: l min_def)
  also have "\<dots> = take (length (painted ctx)) (painted ?c)"
    using Cons.IH [of ?c] by simp
  finally show ?case using Cons.IH [of ?c] l t by simp
qed


lemma drawScene_split:
  "\<exists>before. length before = length (painted ctx) + 2 + length (layers blueprint)
     \<and> painted (drawScene ctx time blueprint)
         = before @ map (spec_glow 0.85 time (real (canvas_width ctx) / 2)
                           (real (canvas_height ctx) / 2)
                           (max (real (canvas_width ctx)) (real (canvas_height ctx))))
                      (enumerate 0 (sparks blueprint))"
proof -
  let ?w = "real (canvas_width ctx)" and ?h = "real (canvas_height ctx)"
  let ?bg = "fillRect
      ((clearRect ctx 0 0 ?w ?h)
         \<lparr>fillStyle := addColorStop (addColorStop (LinearGradient 0 0 ?w ?h []) 0
                                        (background blueprint ! 0)) 1
                         (background blueprint ! 1)\<rparr>) 0 0 ?w ?h"
  let ?ls = "fold (drawLayer time (?w / 2) (?h / 2) (max ?w ?h)
                     (1 + sin (time * pulse blueprint) * 0.05) (distort blueprint))
               (enumerate 0 (layers blueprint)) ?bg"
  let ?pre = "?ls\<lparr>ctx_filter := FilterNone, globalCompositeOperation := ''lighter''\<rparr>"
  have d: "drawScene ctx time blueprint
           = (fold (drawSpark time (?w / 2) (?h / 2) (max ?w ?h))
                (enumerate 0 (sparks blueprint)) ?pre)
             \<lparr>globalCompositeOperation := ''source-over''\<rparr>"
    by (simp add: drawScene_def Let_def)
  have "length (painted ?bg) = length (painted ctx) + 2"
    by (simp add: fillRect_def clearRect_def)
  then have len: "length (painted ?ls) = length (painted ctx) + 2 + length (layers blueprint)"
    using fold_drawLayer [of time "?w / 2" "?h / 2" "max ?w ?h"
        "1 + sin (time * pulse blueprint) * 0.05" "distort blueprint"
        "enumerate 0 (layers blueprint)" ?bg]
    by simp
  have "painted (drawScene ctx time blueprint)
        = painted ?pre @ map (spec_glow 0.85 time (?w / 2) (?h / 2) (max ?w ?h))
                           (enumerate 0 (sparks blueprint))"
    unfolding d using fold_drawSpark [of ?pre time "?w / 2" "?h / 2" "max ?w ?h"
        "enumerate 0 (sparks blueprint)"]
    by simp
  then have "painted (drawScene ctx time blueprint)
        = painted ?ls @ map (spec_glow 0.85 time (?w / 2) (?h / 2) (max ?w ?h))
                           (enumerate 0 (sparks blueprint))"
    by simp
  with len show ?thesis by blast
qed

lemma drawScene_attributes:
  "globalCompositeOperation (drawScene ctx time blueprint) = ''source-over''
   \<and> ctx_filter (drawScene ctx time blueprint) = FilterNone"
proof -
  let ?w = "real (canvas_width ctx)" and ?h = "real (canvas_height ctx)"
  have "ctx_filter (fold (drawSpark time (?w / 2) (?h / 2) (max ?w ?h)) xs c) = FilterNone"
    if "ctx_filter c = FilterNone" "globalCompositeOperation c = ''lighter''" for xs c
    using fold_drawSpark [OF that, of time "?w / 2" "?h / 2" "max ?w ?h" xs] by simp
  then show ?thesis by (simp add: drawScene_def Let_def)
qed

lemma composite_of_glow: "composite_of (spec_glow a t cx cy m is) = Some ''lighter''"
  by (simp add: spec_glow_def Let_def)

text \<open>
  C8, as the code has it. After the clearing, the background and one paint for each
  layer, \<open>drawScene\<close> paints one glow for each spark, in blueprint order: with
  \<open>sparkTime = time * drift + index * 0.01\<close>, the angle wobbled by
  \<open>sin (sparkTime * 0.5) * 0.5\<close> and the distance by \<open>sin sparkTime * 0.02\<close>, a disc of
  radius \<open>size * 12\<close> around \<open>center + (cos angle, sin angle) * distance * maxDim * 0.45\<close>,
  filled with a radial gradient of outer radius \<open>size * 12\<close> whose inner stop has hue
  \<open>hueShift + time * 40\<close> and opacity \<open>0.85\<close>, and whose outer stop is fully transparent.
\<close>

theorem drawScene_sparks:
  "drop (length (painted ctx) + 2 + length (layers blueprint))
     (painted (drawScene ctx time blueprint))
   = map (spec_glow 0.85 time (real (canvas_width ctx) / 2) (real (canvas_height ctx) / 2)
            (max (real (canvas_width ctx)) (real (canvas_height ctx))))
       (enumerate 0 (sparks blueprint))"
  using drawScene_split [of ctx blueprint time] by auto

text \<open>
  C9. When \<open>drawScene\<close> returns, the composite operation of the context is
  \<open>source-over\<close>, although every spark was painted under \<open>lighter\<close>; a rectangle filled
  on the returned context is painted with \<open>source-over\<close> and without filter.
\<close>

theorem drawScene_restores_blending:
  "globalCompositeOperation (drawScene ctx time blueprint) = ''source-over''
   \<and> map composite_of
        (drop (length (painted ctx) + 2 + length (layers blueprint))
           (painted (drawScene ctx time blueprint)))
       = replicate (length (sparks blueprint)) (Some ''lighter'')
   \<and> painted (fillRect (drawScene ctx time blueprint) x y w h)
       = painted (drawScene ctx time blueprint)
         @ [FillRect x y w h (fillStyle (drawScene ctx time blueprint)) FilterNone ''source-over'']"
proof -
  obtain before where b: "length before = length (painted ctx) + 2 + length (layers blueprint)"
    and p: "painted (drawScene ctx time blueprint)
         = before @ map (spec_glow 0.85 time (real (canvas_width ctx) / 2)
                           (real (canvas_height ctx) / 2)
                           (max (real (canvas_width ctx)) (real (canvas_height ctx))))
                      (enumerate 0 (sparks blueprint))"
    using drawScene_split [of ctx blueprint time] by blast
  have "map composite_of
        (drop (length (painted ctx) + 2 + length (layers blueprint))
           (painted (drawScene ctx time blueprint)))
       = replicate (length (sparks blueprint)) (Some ''lighter'')"
    unfolding p using b
    by (simp add: composite_of_glow comp_def map_replicate_const)
  then show ?thesis
    using drawScene_attributes [of ctx time blueprint] by (simp add: fillRect_def)
qed


text \<open>
  The inner stop is not fully opaque: on a fresh canvas of 768 by 768 at time 0, the
  paint of the first spark of the blueprint of the empty prompt (paint number 10, after
  the clearing, the background and 8 layers) is the glow with inner opacity \<open>0.85\<close>, not
  the glow with inner opacity 1.
\<close>

theorem drawScene_inner_stop_counterexample:
  "painted (drawScene (getContext2d 768 768) 0 (fst (buildScene lowerLatin1 [] []))) ! 10
     = spec_glow 0.85 0 384 384 768 (0, sparks (fst (buildScene lowerLatin1 [] [])) ! 0)
   \<and> painted (drawScene (getContext2d 768 768) 0 (fst (buildScene lowerLatin1 [] []))) ! 10
     \<noteq> spec_glow 1 0 384 384 768 (0, sparks (fst (buildScene lowerLatin1 [] [])) ! 0)"
proof -
  let ?b = "fst (buildScene lowerLatin1 [] [])"
  let ?c = "getContext2d 768 768"
  obtain before where b: "length before = length (painted ?c) + 2 + length (layers ?b)"
    and p: "painted (drawScene ?c 0 ?b)
         = before @ map (spec_glow 0.85 0 (real (canvas_width ?c) / 2)
                           (real (canvas_height ?c) / 2)
                           (max (real (canvas_width ?c)) (real (canvas_height ?c))))
                      (enumerate 0 (sparks ?b))"
    using drawScene_split [of ?c ?b 0] by blast
  have len: "length before = 10" using b by (simp add: getContext2d_def default_layerCount)
  have ne: "sparks ?b \<noteq> []" using default_sparkCount by auto
  have "painted (drawScene ?c 0 ?b) ! 10
        = map (spec_glow 0.85 0 (real (canvas_width ?c) / 2) (real (canvas_height ?c) / 2)
                 (max (real (canvas_width ?c)) (real (canvas_height ?c))))
            (enumerate 0 (sparks ?b)) ! 0"
    unfolding p using len by (simp add: nth_append)
  also have "\<dots> = spec_glow 0.85 0 384 384 768 (0, sparks ?b ! 0)"
    using ne default_sparkCount by (simp add: getContext2d_def nth_enumerate_eq)
  finally have eq: "painted (drawScene ?c 0 ?b) ! 10
                    = spec_glow 0.85 0 384 384 768 (0, sparks ?b ! 0)" .
  have "spec_glow 0.85 0 384 384 768 (0, sparks ?b ! 0)
        \<noteq> spec_glow 1 0 384 384 768 (0, sparks ?b ! 0)"
    by (simp add: spec_glow_def Let_def)
  with eq show ?thesis by simp
qed

end
